theory Spec2Isabelle
  imports Complex_Main "HOL-Library.AList"
begin

unbundle bit_operations_syntax

text \<open>
  A shallow embedding of the kernel of the process simulator: the fields of
  \<open>simulator/variables.py\<close>, the orchestrator of \<open>simulator/process.py\<close> that
  synchronises them with the store, and the component framework of
  \<open>scenarios/hydro/components\<close>.  Python objects are instance dictionaries on a heap,
  exceptions are values, and every function returns the state it leaves behind.
\<close>

section \<open>The field model (simulator/variables.py)\<close>

subsection \<open>Enumerations and values\<close>

text \<open>
  The three enumerations of the module.  \<open>FieldType\<close> carries an integer per member,
  except \<open>_NONE_TYPE\<close>, whose value is Python's None.  The two state enumerations share
  member names in the source, so the members are prefixed here.
\<close>

datatype FieldType =
    INPUT_BIT | OUTPUT_BIT | DIGITAL_BIT | ANALOG_BIT
  | DIGITAL_INPUT | DIGITAL_OUTPUT | ANALOG_INPUT | ANALOG_OUTPUT
  | NONE_TYPE

fun FieldType_value :: "FieldType \<Rightarrow> int option" where
  "FieldType_value INPUT_BIT = Some 1"
| "FieldType_value OUTPUT_BIT = Some 2"
| "FieldType_value DIGITAL_BIT = Some 4"
| "FieldType_value ANALOG_BIT = Some 8"
| "FieldType_value DIGITAL_INPUT = Some 5"
| "FieldType_value DIGITAL_OUTPUT = Some 6"
| "FieldType_value ANALOG_INPUT = Some 9"
| "FieldType_value ANALOG_OUTPUT = Some 10"
| "FieldType_value NONE_TYPE = None"

fun FieldType_name :: "FieldType \<Rightarrow> string" where
  "FieldType_name INPUT_BIT = ''INPUT_BIT''"
| "FieldType_name OUTPUT_BIT = ''OUTPUT_BIT''"
| "FieldType_name DIGITAL_BIT = ''DIGITAL_BIT''"
| "FieldType_name ANALOG_BIT = ''ANALOG_BIT''"
| "FieldType_name DIGITAL_INPUT = ''DIGITAL_INPUT''"
| "FieldType_name DIGITAL_OUTPUT = ''DIGITAL_OUTPUT''"
| "FieldType_name ANALOG_INPUT = ''ANALOG_INPUT''"
| "FieldType_name ANALOG_OUTPUT = ''ANALOG_OUTPUT''"
| "FieldType_name NONE_TYPE = ''_NONE_TYPE''"

datatype BreakerStateType = B_CLOSED | B_OPEN | B_TRANSITION | B_BROKEN

fun BreakerStateType_value :: "BreakerStateType \<Rightarrow> bool \<times> bool" where
  "BreakerStateType_value B_CLOSED = (False, True)"
| "BreakerStateType_value B_OPEN = (True, False)"
| "BreakerStateType_value B_TRANSITION = (False, False)"
| "BreakerStateType_value B_BROKEN = (True, True)"

fun BreakerStateType_name :: "BreakerStateType \<Rightarrow> string" where
  "BreakerStateType_name B_CLOSED = ''CLOSED''"
| "BreakerStateType_name B_OPEN = ''OPEN''"
| "BreakerStateType_name B_TRANSITION = ''TRANSITION''"
| "BreakerStateType_name B_BROKEN = ''BROKEN''"

text \<open>Lookup of a member by value, \<open>BreakerStateType((a, b))\<close>; all four pairs are taken.\<close>

fun BreakerStateType_of :: "bool \<times> bool \<Rightarrow> BreakerStateType" where
  "BreakerStateType_of (False, True) = B_CLOSED"
| "BreakerStateType_of (True, False) = B_OPEN"
| "BreakerStateType_of (False, False) = B_TRANSITION"
| "BreakerStateType_of (True, True) = B_BROKEN"

datatype DisconnectorStateType = D_OPEN | D_CLOSED | D_BROKEN

fun DisconnectorStateType_name :: "DisconnectorStateType \<Rightarrow> string" where
  "DisconnectorStateType_name D_OPEN = ''OPEN''"
| "DisconnectorStateType_name D_CLOSED = ''CLOSED''"
| "DisconnectorStateType_name D_BROKEN = ''BROKEN''"

text \<open>Lookup of a member by name, \<open>DisconnectorStateType[s]\<close>; KeyError otherwise.\<close>

definition DisconnectorStateType_by_name :: "string \<Rightarrow> DisconnectorStateType option" where
  "DisconnectorStateType_by_name s =
     (if s = ''OPEN'' then Some D_OPEN
      else if s = ''CLOSED'' then Some D_CLOSED
      else if s = ''BROKEN'' then Some D_BROKEN
      else None)"

text \<open>
  Python values that reach a field; \<open>PInt\<close> is an integer, which Python does not
  bound.
\<close>

datatype pyval =
    PNone | PBool bool | PInt int | PStr string
  | PFieldType FieldType | PBreaker BreakerStateType | PDisconnector DisconnectorStateType

text \<open>
  The numbers of a composition map.  A Python number here is an integer or a float: a
  finite one is the rational it denotes (every integer and every finite float is one,
  and \<open>-0.0\<close> is \<open>Finite 0\<close>), and a float can also be an infinity or not a number.
  Which of these values a sum or a quotient yields is Python's arithmetic, with its
  rounding and its overflow; it is not fixed here (see \<open>arithmetic\<close> below).
\<close>

datatype pynum = Finite rat | PosInf | NegInf | NaN

text \<open>
  What an instance attribute can hold: a value, a callable object, or a composition
  map, a Python dict kept as an association list in insertion order.  A callable
  object (the observer of a disconnector) has a truth value of its own, the first
  argument: True for a function, a method or a lambda, and whatever \<open>__bool__\<close> or
  \<open>__len__\<close> answers for an instance of a class that defines \<open>__call__\<close>.  The second
  argument is the truth value of what a call returns.
\<close>

datatype attrval =
    V pyval
  | Callable bool "pyval \<Rightarrow> bool"
  | FluidDict "(string \<times> pynum) list"

datatype error =
    AttributeError | TypeError | ValueError | KeyError | IndexError
  | ConnectionError | JSONDecodeError | OverflowError | ZeroDivisionError

text \<open>Truthiness, as \<open>if x\<close> and \<open>x and y\<close> test it.\<close>

fun truthy :: "attrval \<Rightarrow> bool" where
  "truthy (V PNone) = False"
| "truthy (V (PBool b)) = b"
| "truthy (V (PInt n)) = (n \<noteq> 0)"
| "truthy (V (PStr s)) = (s \<noteq> [])"
| "truthy (V (PFieldType t)) = True"
| "truthy (V (PBreaker s)) = True"
| "truthy (V (PDisconnector s)) = True"
| "truthy (Callable b f) = b"
| "truthy (FluidDict d) = (d \<noteq> [])"

text \<open>Calling an attribute with one argument; only a callable can be called.\<close>

fun call :: "attrval \<Rightarrow> attrval \<Rightarrow> error + bool" where
  "call (Callable b f) (V v) = Inr (f v)"
| "call (Callable b f) x = Inl TypeError"
| "call x y = Inl TypeError"

subsection \<open>Objects\<close>

text \<open>
  An object is its class and its instance dictionary.  Attributes are attached at run
  time, so an attribute that was never assigned is absent from the dictionary and
  reading it raises AttributeError.  \<open>Other_class\<close> stands for every class that does
  not derive from \<open>Field\<close>.
\<close>

datatype pyclass =
  Field_class | FluidField_class | DisconnectorStateField_class | Other_class

record pyobject =
  cls :: pyclass
  dict :: "string \<rightharpoonup> attrval"

definition new_object :: "pyclass \<Rightarrow> pyobject" where
  "new_object c = \<lparr>cls = c, dict = Map.empty\<rparr>"

definition isinstance_Field :: "pyobject \<Rightarrow> bool" where
  "isinstance_Field obj = (cls obj \<noteq> Other_class)"

definition getattribute :: "pyobject \<Rightarrow> string \<Rightarrow> error + attrval" where
  "getattribute self name =
     (case dict self name of None \<Rightarrow> Inl AttributeError | Some v \<Rightarrow> Inr v)"

text \<open>\<open>object.__setattr__\<close>, which \<open>super().__setattr__\<close> reaches.\<close>

definition object_setattr :: "pyobject \<Rightarrow> string \<Rightarrow> attrval \<Rightarrow> pyobject" where
  "object_setattr self name v = self\<lparr>dict := (dict self)(name \<mapsto> v)\<rparr>"

subsection \<open>DisconnectorStateField.__setattr__\<close>

text \<open>
  \<^verbatim>\<open>
  def __setattr__(self, name, value):
      if name == "value":
          current_value = self.__getattribute__(name)
          if current_value == DisconnectorStateType.CLOSED and value == DisconnectorStateType.OPEN:
              if self._observer and not self._observer(value):
                  return
          elif current_value == DisconnectorStateType.BROKEN:
              raise ValueError(...)
      super().__setattr__(name, value)
  \<close>
  The result is the object after the call, or the exception raised; an exception is
  raised before anything is assigned.
\<close>

definition DisconnectorStateField_setattr ::
  "pyobject \<Rightarrow> string \<Rightarrow> attrval \<Rightarrow> error + pyobject" where
  "DisconnectorStateField_setattr self name v =
     (if name = ''value'' then
        (case getattribute self name of
           Inl e \<Rightarrow> Inl e
         | Inr current_value \<Rightarrow>
             if current_value = V (PDisconnector D_CLOSED) \<and> v = V (PDisconnector D_OPEN) then
               (case getattribute self ''_observer'' of
                  Inl e \<Rightarrow> Inl e
                | Inr observer \<Rightarrow>
                    if truthy observer then
                      (case call observer v of
                         Inl e \<Rightarrow> Inl e
                       | Inr approved \<Rightarrow>
                           if \<not> approved then Inr self
                           else Inr (object_setattr self name v))
                    else Inr (object_setattr self name v))
             else if current_value = V (PDisconnector D_BROKEN) then Inl ValueError
             else Inr (object_setattr self name v))
      else Inr (object_setattr self name v))"

text \<open>Attribute assignment \<open>self.name = v\<close>, dispatched on the class of the object.\<close>

definition setattr :: "pyobject \<Rightarrow> string \<Rightarrow> attrval \<Rightarrow> error + pyobject" where
  "setattr self name v =
     (if cls self = DisconnectorStateField_class then DisconnectorStateField_setattr self name v
      else Inr (object_setattr self name v))"

text \<open>Sequencing of steps that may raise.\<close>

definition and_then :: "error + 'a \<Rightarrow> ('a \<Rightarrow> error + 'b) \<Rightarrow> error + 'b" where
  "and_then r f = (case r of Inl e \<Rightarrow> Inl e | Inr x \<Rightarrow> f x)"

subsection \<open>Field\<close>

text \<open>
  \<open>Field.__init__\<close> assigns name, ioType, value and hide, in this order, each through
  the attribute assignment of the object's own class.
\<close>

definition Field_init ::
  "pyobject \<Rightarrow> attrval \<Rightarrow> attrval \<Rightarrow> attrval \<Rightarrow> attrval \<Rightarrow> error + pyobject" where
  "Field_init self name io_type val hide =
     and_then (setattr self ''name'' name) (\<lambda>s1.
     and_then (setattr s1 ''ioType'' io_type) (\<lambda>s2.
     and_then (setattr s2 ''value'' val) (\<lambda>s3.
     setattr s3 ''hide'' hide)))"

definition Field :: "attrval \<Rightarrow> attrval \<Rightarrow> attrval \<Rightarrow> attrval \<Rightarrow> error + pyobject" where
  "Field name io_type val hide = Field_init (new_object Field_class) name io_type val hide"

subsection \<open>FluidField\<close>

text \<open>
  The comparisons of \<open>_normalize\<close>, \<open>total > 0\<close> and \<open>val != 0\<close>.  They are exact in
  Python, on integers and on floats: no infinity and no NaN equals 0, and NaN is not
  greater than 0.
\<close>

fun gt0 :: "pynum \<Rightarrow> bool" where
  "gt0 (Finite r) = (0 < r)"
| "gt0 PosInf = True"
| "gt0 NegInf = False"
| "gt0 NaN = False"

fun ne0 :: "pynum \<Rightarrow> bool" where
  "ne0 (Finite r) = (r \<noteq> 0)"
| "ne0 PosInf = True"
| "ne0 NegInf = True"
| "ne0 NaN = True"

text \<open>
  The two operations of \<open>_normalize\<close> that compute a number, \<open>sum\<close> and \<open>/\<close>.  On
  floats they round and overflow (and how \<open>sum\<close> adds floats up has changed between
  versions of Python), on integers \<open>/\<close> yields a float, and with large integers both
  can raise OverflowError.  So they are a parameter of the model, any pair of functions
  that return a number or raise, and what is proved of \<open>_normalize\<close> holds for
  Python's arithmetic whatever it does.
\<close>

record arithmetic =
  py_sum :: "pynum list \<Rightarrow> error + pynum"
  py_truediv :: "pynum \<Rightarrow> pynum \<Rightarrow> error + pynum"

text \<open>
  The comprehension \<open>{key: val / total for key, val in fluid_dict.items() if val != 0}\<close>:
  the items in order, the test before the division, and the first division that raises
  ends it.  The keys of a dict are distinct, so no entry of the result replaces another.
\<close>

fun quotients ::
  "arithmetic \<Rightarrow> pynum \<Rightarrow> (string \<times> pynum) list \<Rightarrow> error + (string \<times> pynum) list" where
  "quotients ar tot [] = Inr []"
| "quotients ar tot ((key, val) # rest) =
     (if ne0 val then
        (case py_truediv ar val tot of
           Inl e \<Rightarrow> Inl e
         | Inr q \<Rightarrow>
             (case quotients ar tot rest of
                Inl e \<Rightarrow> Inl e
              | Inr qs \<Rightarrow> Inr ((key, q) # qs)))
      else quotients ar tot rest)"

text \<open>
  \<^verbatim>\<open>
  def _normalize(self, fluid_dict):
      total = sum(fluid_dict.values())
      if total > 0:
          return {key: val / total for key, val in fluid_dict.items() if val != 0}
      return {}
  \<close>
\<close>

definition FluidField_normalize ::
  "arithmetic \<Rightarrow> (string \<times> pynum) list \<Rightarrow> error + (string \<times> pynum) list" where
  "FluidField_normalize ar fluid_dict =
     (case py_sum ar (map snd fluid_dict) of
        Inl e \<Rightarrow> Inl e
      | Inr tot \<Rightarrow> if gt0 tot then quotients ar tot fluid_dict else Inr [])"

text \<open>
  The stored composition, \<open>self._normalize(fluid_dict) if fluid_dict else None\<close>: the
  argument is None or a dict, and an empty dict is false.
\<close>

definition FluidField_stored ::
  "arithmetic \<Rightarrow> (string \<times> pynum) list option \<Rightarrow> error + attrval" where
  "FluidField_stored ar fluid_dict =
     (case fluid_dict of
        None \<Rightarrow> Inr (V PNone)
      | Some d \<Rightarrow>
          if d \<noteq> [] then
            (case FluidField_normalize ar d of
               Inl e \<Rightarrow> Inl e
             | Inr c \<Rightarrow> Inr (FluidDict c))
          else Inr (V PNone))"

text \<open>
  \<^verbatim>\<open>
  def __init__(self, name, io_type=None, value=None, hide=False, fluid_dict=None, temperature=-1):
      super().__init__(name, io_type, value, hide)
      self._fluidDict = self._normalize(fluid_dict) if fluid_dict else None
      self._temperature = temperature
  \<close>
\<close>

definition FluidField ::
  "arithmetic \<Rightarrow> attrval \<Rightarrow> attrval \<Rightarrow> attrval \<Rightarrow> attrval \<Rightarrow> (string \<times> pynum) list option
     \<Rightarrow> attrval \<Rightarrow> error + pyobject" where
  "FluidField ar name io_type val hide fluid_dict temperature =
     and_then (Field_init (new_object FluidField_class) name io_type val hide) (\<lambda>s1.
     and_then (FluidField_stored ar fluid_dict) (\<lambda>stored.
     and_then (setattr s1 ''_fluidDict'' stored) (\<lambda>s2.
     setattr s2 ''_temperature'' temperature)))"



text \<open>
  One arithmetic, for the examples: sums and quotients without rounding and without
  overflow.  It is Python's on the operands whose exact sum or quotient is a float (or
  an integer, for a sum of integers), which the operands of the examples are; division
  by zero raises, as it does in Python for integers and for floats.
\<close>

fun exact_add :: "pynum \<Rightarrow> pynum \<Rightarrow> pynum" where
  "exact_add (Finite a) (Finite b) = Finite (a + b)"
| "exact_add NaN y = NaN"
| "exact_add x NaN = NaN"
| "exact_add PosInf NegInf = NaN"
| "exact_add NegInf PosInf = NaN"
| "exact_add PosInf y = PosInf"
| "exact_add NegInf y = NegInf"
| "exact_add (Finite a) y = y"

definition exact_sum :: "pynum list \<Rightarrow> error + pynum" where
  "exact_sum vs = Inr (foldl exact_add (Finite 0) vs)"

fun exact_truediv :: "pynum \<Rightarrow> pynum \<Rightarrow> error + pynum" where
  "exact_truediv x (Finite b) =
     (if b = 0 then Inl ZeroDivisionError
      else (case x of
              Finite a \<Rightarrow> Inr (Finite (a / b))
            | PosInf \<Rightarrow> Inr (if 0 < b then PosInf else NegInf)
            | NegInf \<Rightarrow> Inr (if 0 < b then NegInf else PosInf)
            | NaN \<Rightarrow> Inr NaN))"
| "exact_truediv (Finite a) PosInf = Inr (Finite 0)"
| "exact_truediv (Finite a) NegInf = Inr (Finite 0)"
| "exact_truediv x y = Inr NaN"

definition exact_arithmetic :: arithmetic where
  "exact_arithmetic = \<lparr>py_sum = exact_sum, py_truediv = exact_truediv\<rparr>"

subsection \<open>DisconnectorStateField\<close>

text \<open>
  \<^verbatim>\<open>
  def __init__(self, name, io_type=None, value=None, hide=False):
      if not isinstance(value, DisconnectorStateType):
          raise TypeError(name, value)
      self._observer = None
      super().__init__(name, io_type, value, hide)
  \<close>
\<close>

fun is_DisconnectorStateType :: "attrval \<Rightarrow> bool" where
  "is_DisconnectorStateType (V (PDisconnector s)) = True"
| "is_DisconnectorStateType x = False"

definition DisconnectorStateField ::
  "attrval \<Rightarrow> attrval \<Rightarrow> attrval \<Rightarrow> attrval \<Rightarrow> error + pyobject" where
  "DisconnectorStateField name io_type val hide =
     (if \<not> is_DisconnectorStateType val then Inl TypeError
      else
        and_then (setattr (new_object DisconnectorStateField_class) ''_observer'' (V PNone))
          (\<lambda>s1. Field_init s1 name io_type val hide))"



subsection \<open>The heap\<close>

text \<open>
  Fields are shared by reference: a collection, a component and the process all hold
  the same object.  The heap maps addresses to objects; an assignment through a
  reference replaces the object at its address.  The pair returned is the heap after
  the statement and the exception raised, if any.
\<close>

type_synonym addr = nat
type_synonym heap = "addr \<rightharpoonup> pyobject"

definition heap_getattr :: "heap \<Rightarrow> addr \<Rightarrow> string \<Rightarrow> error + attrval" where
  "heap_getattr h a name =
     (case h a of None \<Rightarrow> Inl AttributeError | Some obj \<Rightarrow> getattribute obj name)"

definition heap_setattr :: "heap \<Rightarrow> addr \<Rightarrow> string \<Rightarrow> attrval \<Rightarrow> heap \<times> error option" where
  "heap_setattr h a name v =
     (case h a of
        None \<Rightarrow> (h, Some AttributeError)
      | Some obj \<Rightarrow>
          (case setattr obj name v of
             Inl e \<Rightarrow> (h, Some e)
           | Inr obj' \<Rightarrow> (h(a \<mapsto> obj'), None)))"

subsection \<open>FieldCollection and BreakerStateField\<close>

text \<open>
  \<^verbatim>\<open>
  def __init__(self, fields):
      for field in fields:
          if not isinstance(field, Field):
              raise ValueError(field.name)
      self._fields = fields
  \<close>
  The members are references.  Building the ValueError reads \<open>field.name\<close>, which
  itself raises AttributeError on an object without that attribute.
\<close>

record FieldCollection =
  fields_attr :: "addr list"

fun check_members :: "heap \<Rightarrow> addr list \<Rightarrow> error option" where
  "check_members h [] = None"
| "check_members h (field # rest) =
     (case h field of
        None \<Rightarrow> Some AttributeError
      | Some obj \<Rightarrow>
          if \<not> isinstance_Field obj then
            (case getattribute obj ''name'' of
               Inl e \<Rightarrow> Some e
             | Inr n \<Rightarrow> Some ValueError)
          else check_members h rest)"

definition FieldCollection_init :: "heap \<Rightarrow> addr list \<Rightarrow> error + FieldCollection" where
  "FieldCollection_init h fs =
     (case check_members h fs of
        Some e \<Rightarrow> Inl e
      | None \<Rightarrow> Inr \<lparr>fields_attr = fs\<rparr>)"

text \<open>The property \<open>fields\<close>: its getter and its setter, which checks nothing.\<close>

definition FieldCollection_fields :: "FieldCollection \<Rightarrow> addr list" where
  "FieldCollection_fields self = fields_attr self"

definition FieldCollection_set_fields :: "FieldCollection \<Rightarrow> addr list \<Rightarrow> FieldCollection" where
  "FieldCollection_set_fields self fs = self\<lparr>fields_attr := fs\<rparr>"

text \<open>
  The value of a member as one half of a breaker pair: the enumeration is looked up by
  equality on the pair, and Python's 0 and 1 equal False and True.
\<close>

fun as_bool :: "attrval \<Rightarrow> bool option" where
  "as_bool (V (PBool b)) = Some b"
| "as_bool (V (PInt n)) = (if n = 0 then Some False else if n = 1 then Some True else None)"
| "as_bool x = None"

text \<open>
  \<^verbatim>\<open>
  @property
  def value(self):
      return BreakerStateType((self.fields[0].value, self.fields[1].value))
  \<close>
\<close>

definition BreakerStateField_value :: "heap \<Rightarrow> FieldCollection \<Rightarrow> error + BreakerStateType" where
  "BreakerStateField_value h self =
     (case FieldCollection_fields self of
        [] \<Rightarrow> Inl IndexError
      | f0 # rest0 \<Rightarrow>
          and_then (heap_getattr h f0 ''value'') (\<lambda>v0.
            case rest0 of
              [] \<Rightarrow> Inl IndexError
            | f1 # rest1 \<Rightarrow>
                and_then (heap_getattr h f1 ''value'') (\<lambda>v1.
                  case (as_bool v0, as_bool v1) of
                    (Some b0, Some b1) \<Rightarrow> Inr (BreakerStateType_of (b0, b1))
                  | other \<Rightarrow> Inl ValueError)))"

text \<open>
  \<^verbatim>\<open>
  @value.setter
  def value(self, value):
      state0, state1 = self.fields
      val0, val1 = value.value
      state0.value = val0
      state1.value = val1
  \<close>
  Unpacking raises ValueError unless there are exactly two members; \<open>value.value\<close>
  is a pair only for a member of \<open>BreakerStateType\<close>.
\<close>

fun breaker_pair :: "attrval \<Rightarrow> error + bool \<times> bool" where
  "breaker_pair (V (PBreaker s)) = Inr (BreakerStateType_value s)"
| "breaker_pair (V (PDisconnector s)) = Inl ValueError"
| "breaker_pair (V (PFieldType t)) = Inl TypeError"
| "breaker_pair x = Inl AttributeError"

definition BreakerStateField_set_value ::
  "heap \<Rightarrow> FieldCollection \<Rightarrow> attrval \<Rightarrow> heap \<times> error option" where
  "BreakerStateField_set_value h self v =
     (case FieldCollection_fields self of
        [state0, state1] \<Rightarrow>
          (case breaker_pair v of
             Inl e \<Rightarrow> (h, Some e)
           | Inr (val0, val1) \<Rightarrow>
               (case heap_setattr h state0 ''value'' (V (PBool val0)) of
                  (h1, Some e) \<Rightarrow> (h1, Some e)
                | (h1, None) \<Rightarrow> heap_setattr h1 state1 ''value'' (V (PBool val1))))
      | other \<Rightarrow> (h, Some ValueError))"

text \<open>
  \<^verbatim>\<open>
  def __init__(self, fields, value, hide=False):
      if not isinstance(value, BreakerStateType):
          raise TypeError(fields, value)
      super().__init__(fields)
      self.value = value
  \<close>
\<close>

fun is_BreakerStateType :: "attrval \<Rightarrow> bool" where
  "is_BreakerStateType (V (PBreaker s)) = True"
| "is_BreakerStateType x = False"

definition BreakerStateField ::
  "heap \<Rightarrow> addr list \<Rightarrow> attrval \<Rightarrow> heap \<times> (error + FieldCollection)" where
  "BreakerStateField h fs v =
     (if \<not> is_BreakerStateType v then (h, Inl TypeError)
      else
        (case FieldCollection_init h fs of
           Inl e \<Rightarrow> (h, Inl e)
         | Inr self \<Rightarrow>
             (case BreakerStateField_set_value h self v of
                (h1, Some e) \<Rightarrow> (h1, Inl e)
              | (h1, None) \<Rightarrow> (h1, Inr self))))"

section \<open>The orchestrator (simulator/process.py)\<close>

subsection \<open>The store and the JSON codec\<close>

text \<open>
  The orchestrator talks to two libraries.  The store (a Redis client) is a key-value
  map that answers a read with the stored text or with None when the key is missing,
  and that raises when the server cannot be reached.  The JSON codec is kept abstract:
  \<open>dumps\<close> and \<open>loads\<close> are any two functions that return a result or raise, so every
  statement below holds whatever the codec does on a given text.
\<close>

record broker =
  kv :: "string \<rightharpoonup> string"
  online :: bool

definition broker_get :: "broker \<Rightarrow> string \<Rightarrow> error + string option" where
  "broker_get b name = (if online b then Inr (kv b name) else Inl ConnectionError)"

definition broker_set :: "broker \<Rightarrow> string \<Rightarrow> string \<Rightarrow> error + broker" where
  "broker_set b name val =
     (if online b then Inr (b\<lparr>kv := (kv b)(name \<mapsto> val)\<rparr>) else Inl ConnectionError)"

record json =
  dumps :: "attrval \<Rightarrow> error + string"
  loads :: "string \<Rightarrow> error + attrval"

subsection \<open>Serialisation of a field\<close>

text \<open>The attribute \<open>name\<close> of an enumeration member; other values have none.\<close>

fun enum_name :: "attrval \<Rightarrow> error + string" where
  "enum_name (V (PFieldType t)) = Inr (FieldType_name t)"
| "enum_name (V (PBreaker s)) = Inr (BreakerStateType_name s)"
| "enum_name (V (PDisconnector s)) = Inr (DisconnectorStateType_name s)"
| "enum_name x = Inl AttributeError"

text \<open>
  \<open>Field.toJSON\<close> is \<open>json.dumps(self.value)\<close>; \<open>DisconnectorStateField.toJSON\<close> is
  \<open>json.dumps(self.value.name)\<close>.
\<close>

definition toJSON :: "json \<Rightarrow> pyobject \<Rightarrow> error + string" where
  "toJSON js self =
     (if cls self = DisconnectorStateField_class then
        and_then (getattribute self ''value'') (\<lambda>v.
        and_then (enum_name v) (\<lambda>n. dumps js (V (PStr n))))
      else and_then (getattribute self ''value'') (dumps js))"

text \<open>\<open>json.loads(value)\<close>, where the store's answer may be None: a TypeError.\<close>

definition json_loads :: "json \<Rightarrow> string option \<Rightarrow> error + attrval" where
  "json_loads js val = (case val of None \<Rightarrow> Inl TypeError | Some s \<Rightarrow> loads js s)"

text \<open>\<open>DisconnectorStateType[x]\<close>: a dict is unhashable, any other key is looked up.\<close>

fun DisconnectorStateType_getitem :: "attrval \<Rightarrow> error + attrval" where
  "DisconnectorStateType_getitem (V (PStr s)) =
     (case DisconnectorStateType_by_name s of
        None \<Rightarrow> Inl KeyError
      | Some d \<Rightarrow> Inr (V (PDisconnector d)))"
| "DisconnectorStateType_getitem (FluidDict d) = Inl TypeError"
| "DisconnectorStateType_getitem x = Inl KeyError"

text \<open>
  \<open>Field.fromJSON\<close> is \<open>self.value = json.loads(value)\<close>;
  \<open>DisconnectorStateField.fromJSON\<close> is
  \<open>self.value = DisconnectorStateType[json.loads(value)]\<close>.
\<close>

definition fromJSON :: "json \<Rightarrow> pyobject \<Rightarrow> string option \<Rightarrow> error + pyobject" where
  "fromJSON js self val =
     (if cls self = DisconnectorStateField_class then
        and_then (json_loads js val) (\<lambda>x.
        and_then (DisconnectorStateType_getitem x) (\<lambda>d. setattr self ''value'' d))
      else and_then (json_loads js val) (\<lambda>x. setattr self ''value'' x))"

subsection \<open>The process object\<close>

text \<open>
  The fields are attached to the process as attributes, next to the store client, the
  time factor, the environment and the verbosity flag.  \<open>self.__dict__\<close> is an
  association list in insertion order; an attribute is a reference into the heap or
  something that is no object of the field model.
\<close>

datatype attribute = Ref addr | Other

record Process =
  p_dict :: "(string \<times> attribute) list"

datatype event = BrokerGet string | BrokerSet string string | Yield nat

text \<open>
  The world the orchestrator acts on: the heap of shared objects, the next free
  address, the store, and the record of the orchestrator's own store calls and
  suspensions, oldest first.
\<close>

record world =
  w_heap :: heap
  w_next :: addr
  w_broker :: broker
  w_trace :: "event list"

text \<open>
  \<open>val.ioType.value & mask\<close>.  The attribute \<open>ioType\<close> holds a member of
  \<open>FieldType\<close> or None; None has no attribute \<open>value\<close>, and the value None of
  \<open>_NONE_TYPE\<close> has no operator \<open>&\<close>.
\<close>

fun value_and :: "attrval \<Rightarrow> int \<Rightarrow> error + int" where
  "value_and (V (PFieldType t)) m =
     (case FieldType_value t of None \<Rightarrow> Inl TypeError | Some n \<Rightarrow> Inr (n AND m))"
| "value_and (V (PBreaker s)) m = Inl TypeError"
| "value_and (V (PDisconnector s)) m = Inl TypeError"
| "value_and x m = Inl AttributeError"

definition ioType_and :: "pyobject \<Rightarrow> int \<Rightarrow> error + int" where
  "ioType_and val m = and_then (getattribute val ''ioType'') (\<lambda>t. value_and t m)"

text \<open>
  The dict comprehension of both phases,
  \<^verbatim>\<open>{key: val for key, val in self.__dict__.items()
       if isinstance(val, variables.Field) and <condition on val>}\<close>
  The condition is evaluated for each instance of \<open>Field\<close> in turn, and an exception
  in it ends the comprehension before any field is handled.
\<close>

fun select_fields ::
  "heap \<Rightarrow> (pyobject \<Rightarrow> error + bool) \<Rightarrow> (string \<times> attribute) list
     \<Rightarrow> error + (string \<times> addr) list" where
  "select_fields h cond [] = Inr []"
| "select_fields h cond ((key, Other) # rest) = select_fields h cond rest"
| "select_fields h cond ((key, Ref a) # rest) =
     (case h a of
        None \<Rightarrow> select_fields h cond rest
      | Some val \<Rightarrow>
          if isinstance_Field val then
            (case cond val of
               Inl e \<Rightarrow> Inl e
             | Inr b \<Rightarrow>
                 (case select_fields h cond rest of
                    Inl e \<Rightarrow> Inl e
                  | Inr sel \<Rightarrow> Inr (if b then (key, a) # sel else sel)))
          else select_fields h cond rest)"

text \<open>
  \<^verbatim>\<open>val.ioType.value & variables.FieldType.OUTPUT_BIT.value or force_all\<close>: the
  left operand of \<open>or\<close> is evaluated first.
\<close>

definition output_cond :: "bool \<Rightarrow> pyobject \<Rightarrow> error + bool" where
  "output_cond force_all val = and_then (ioType_and val 2) (\<lambda>n. Inr (n \<noteq> 0 \<or> force_all))"

definition input_cond :: "pyobject \<Rightarrow> error + bool" where
  "input_cond val = and_then (ioType_and val 1) (\<lambda>n. Inr (n \<noteq> 0))"

text \<open>
  \<^verbatim>\<open>
  def _publish_fields(self, force_all=False):
      for name, var in {...}.items():
          val = var.toJSON()
          self._broker.set(name, val)
  \<close>
\<close>

fun publish_loop :: "json \<Rightarrow> (string \<times> addr) list \<Rightarrow> world \<Rightarrow> world \<times> error option" where
  "publish_loop js [] w = (w, None)"
| "publish_loop js ((name, var) # rest) w =
     (case w_heap w var of
        None \<Rightarrow> (w, Some AttributeError)
      | Some obj \<Rightarrow>
          (case toJSON js obj of
             Inl e \<Rightarrow> (w, Some e)
           | Inr val \<Rightarrow>
               (let w1 = w\<lparr>w_trace := w_trace w @ [BrokerSet name val]\<rparr> in
                case broker_set (w_broker w1) name val of
                  Inl e \<Rightarrow> (w1, Some e)
                | Inr b \<Rightarrow> publish_loop js rest (w1\<lparr>w_broker := b\<rparr>))))"

definition Process_publish_fields ::
  "json \<Rightarrow> Process \<Rightarrow> bool \<Rightarrow> world \<Rightarrow> world \<times> error option" where
  "Process_publish_fields js self force_all w =
     (case select_fields (w_heap w) (output_cond force_all) (p_dict self) of
        Inl e \<Rightarrow> (w, Some e)
      | Inr sel \<Rightarrow> publish_loop js sel w)"

text \<open>
  \<^verbatim>\<open>
  def _retrieve_fields(self):
      for name, var in {...}.items():
          val = self._broker.get(name)
          getattr(self, name).fromJSON(val)
  \<close>
  The field is read back from the process by its name.
\<close>

fun retrieve_loop ::
  "json \<Rightarrow> Process \<Rightarrow> (string \<times> addr) list \<Rightarrow> world \<Rightarrow> world \<times> error option" where
  "retrieve_loop js self [] w = (w, None)"
| "retrieve_loop js self ((name, var) # rest) w =
     (let w1 = w\<lparr>w_trace := w_trace w @ [BrokerGet name]\<rparr> in
      case broker_get (w_broker w1) name of
        Inl e \<Rightarrow> (w1, Some e)
      | Inr val \<Rightarrow>
          (case map_of (p_dict self) name of
             Some (Ref a) \<Rightarrow>
               (case w_heap w1 a of
                  None \<Rightarrow> (w1, Some AttributeError)
                | Some obj \<Rightarrow>
                    (case fromJSON js obj val of
                       Inl e \<Rightarrow> (w1, Some e)
                     | Inr obj' \<Rightarrow>
                         retrieve_loop js self rest (w1\<lparr>w_heap := (w_heap w1)(a \<mapsto> obj')\<rparr>)))
           | other \<Rightarrow> (w1, Some AttributeError)))"

definition Process_retrieve_fields :: "json \<Rightarrow> Process \<Rightarrow> world \<Rightarrow> world \<times> error option" where
  "Process_retrieve_fields js self w =
     (case select_fields (w_heap w) input_cond (p_dict self) of
        Inl e \<Rightarrow> (w, Some e)
      | Inr sel \<Rightarrow> retrieve_loop js self sel w)"

text \<open>
  \<^verbatim>\<open>
  def process(self):
      while True:
          self._retrieve_fields()
          yield self._env.timeout(1)
          self._publish_fields()
  \<close>
  One pass through the loop body.  While the generator is suspended the other processes
  of the simulation and the gateway behind the store run: \<open>others\<close> is what they do to
  the heap and to the store.  An exception leaves the generator, so the pass ends with
  it and nothing after it runs.
\<close>

definition suspend :: "(heap \<times> broker \<Rightarrow> heap \<times> broker) \<Rightarrow> nat \<Rightarrow> world \<Rightarrow> world" where
  "suspend others delay w =
     (let (h, b) = others (w_heap w, w_broker w) in
      w\<lparr>w_heap := h, w_broker := b, w_trace := w_trace w @ [Yield delay]\<rparr>)"

definition Process_process_body ::
  "json \<Rightarrow> Process \<Rightarrow> (heap \<times> broker \<Rightarrow> heap \<times> broker) \<Rightarrow> world \<Rightarrow> world \<times> error option" where
  "Process_process_body js self others w =
     (case Process_retrieve_fields js self w of
        (w1, Some e) \<Rightarrow> (w1, Some e)
      | (w1, None) \<Rightarrow> Process_publish_fields js self False (suspend others 1 w1))"

text \<open>The loop, for a given number of passes; it stops at the first exception.\<close>

fun Process_process ::
  "nat \<Rightarrow> json \<Rightarrow> Process \<Rightarrow> (heap \<times> broker \<Rightarrow> heap \<times> broker) \<Rightarrow> world
     \<Rightarrow> world \<times> error option" where
  "Process_process 0 js self others w = (w, None)"
| "Process_process (Suc n) js self others w =
     (case Process_process_body js self others w of
        (w1, Some e) \<Rightarrow> (w1, Some e)
      | (w1, None) \<Rightarrow> Process_process n js self others w1)"

subsection \<open>Building the fields from the configuration\<close>

text \<open>
  The parsed configuration lists the variables by name.  A record may name an
  \<open>ioType\<close>, a \<open>compositeType\<close>, a \<open>value\<close> and a \<open>hide\<close> flag.  The composite
  type is one of the field classes of the module, and the value of a composite record
  that is written as a dotted path stands here for the object the path denotes; names
  and paths outside the module's field classes and enumerations are not represented.
\<close>

datatype composite =
    C_Field | C_FluidField | C_DisconnectorStateField | C_BreakerStateField
  | C_FieldCollection

record variable =
  v_ioType :: "string option"
  v_compositeType :: "composite option"
  v_value :: "attrval option"
  v_hide :: "attrval option"

definition FieldType_members :: "FieldType list" where
  "FieldType_members =
     [INPUT_BIT, OUTPUT_BIT, DIGITAL_BIT, ANALOG_BIT, DIGITAL_INPUT, DIGITAL_OUTPUT,
      ANALOG_INPUT, ANALOG_OUTPUT, NONE_TYPE]"

text \<open>\<open>getattr(variables.FieldType, name)\<close>.\<close>

definition FieldType_getattr :: "string \<Rightarrow> error + attrval" where
  "FieldType_getattr s =
     (case find (\<lambda>t. FieldType_name t = s) FieldType_members of
        None \<Rightarrow> Inl AttributeError
      | Some t \<Rightarrow> Inr (V (PFieldType t)))"

definition get_or_None :: "attrval option \<Rightarrow> attrval" where
  "get_or_None x = (case x of None \<Rightarrow> V PNone | Some v \<Rightarrow> v)"

text \<open>
  \<open>var_type(key, io_type, value, hide)\<close>.  \<open>BreakerStateField\<close> and
  \<open>FieldCollection\<close> take fewer positional arguments than the call passes.  A
  \<open>FluidField\<close> built here gets no composition map, so nothing is summed or divided
  and the arithmetic named in the call is never used.
\<close>

definition construct ::
  "composite \<Rightarrow> attrval \<Rightarrow> attrval \<Rightarrow> attrval \<Rightarrow> attrval \<Rightarrow> error + pyobject" where
  "construct var_type key io_type val hide =
     (case var_type of
        C_Field \<Rightarrow> Field key io_type val hide
      | C_FluidField \<Rightarrow> FluidField exact_arithmetic key io_type val hide None (V (PInt (- 1)))
      | C_DisconnectorStateField \<Rightarrow> DisconnectorStateField key io_type val hide
      | C_BreakerStateField \<Rightarrow> Inl TypeError
      | C_FieldCollection \<Rightarrow> Inl TypeError)"

text \<open>
  One turn of the loop of \<open>_init_all_fields\<close>:
  \<^verbatim>\<open>
  io_type = getattr(variables.FieldType, val["ioType"]) if "ioType" in val else None
  hide = val.get("hide")
  if "compositeType" in val:
      var_type = getattr(variables, val["compositeType"])
      ... value = val["value"]
  else:
      var_type = variables.Field
      value = val.get("value")
  var = var_type(key, io_type, value, hide)
  setattr(self, key, var)
  \<close>
\<close>

definition init_field ::
  "string \<Rightarrow> variable \<Rightarrow> Process \<times> world \<Rightarrow> (Process \<times> world) \<times> error option" where
  "init_field key val pw =
     (case pw of (self, w) \<Rightarrow>
       (case (case v_ioType val of None \<Rightarrow> Inr (V PNone) | Some s \<Rightarrow> FieldType_getattr s) of
          Inl e \<Rightarrow> (pw, Some e)
        | Inr io_type \<Rightarrow>
            (case (case v_compositeType val of
                     None \<Rightarrow> Inr (C_Field, get_or_None (v_value val))
                   | Some t \<Rightarrow>
                       (case v_value val of
                          None \<Rightarrow> Inl KeyError
                        | Some v \<Rightarrow> Inr (t, v))) of
               Inl e \<Rightarrow> (pw, Some e)
             | Inr (var_type, v) \<Rightarrow>
                 (case construct var_type (V (PStr key)) io_type v (get_or_None (v_hide val)) of
                    Inl e \<Rightarrow> (pw, Some e)
                  | Inr var \<Rightarrow>
                      ((self\<lparr>p_dict := AList.update key (Ref (w_next w)) (p_dict self)\<rparr>,
                        w\<lparr>w_heap := (w_heap w)(w_next w \<mapsto> var), w_next := Suc (w_next w)\<rparr>),
                       None)))))"

fun init_fields ::
  "(string \<times> variable) list \<Rightarrow> Process \<times> world \<Rightarrow> (Process \<times> world) \<times> error option" where
  "init_fields [] pw = (pw, None)"
| "init_fields ((key, val) # rest) pw =
     (case init_field key val pw of
        (pw1, Some e) \<Rightarrow> (pw1, Some e)
      | (pw1, None) \<Rightarrow> init_fields rest pw1)"

text \<open>
  \<^verbatim>\<open>
  def _init_all_fields(self, data):
      self._factor = data["environment"]["factor"]
      for key, val in data["variables"].items():
          ...
      self._publish_fields(force_all=True)
  \<close>
\<close>

definition Process_init_all_fields ::
  "json \<Rightarrow> (string \<times> variable) list \<Rightarrow> Process \<times> world \<Rightarrow> (Process \<times> world) \<times> error option" where
  "Process_init_all_fields js variables pw =
     (case pw of (self, w) \<Rightarrow>
       (case init_fields variables (self\<lparr>p_dict := AList.update ''_factor'' Other (p_dict self)\<rparr>, w) of
          (pw1, Some e) \<Rightarrow> (pw1, Some e)
        | ((self1, w1), None) \<Rightarrow>
            (case Process_publish_fields js self1 True w1 of
               (w2, r) \<Rightarrow> ((self1, w2), r))))"

text \<open>
  The start of \<open>Process.__init__\<close>: the store client is attached, then the
  configuration is applied.
\<close>

definition Process_init ::
  "json \<Rightarrow> (string \<times> variable) list \<Rightarrow> world \<Rightarrow> (Process \<times> world) \<times> error option" where
  "Process_init js variables w =
     Process_init_all_fields js variables (\<lparr>p_dict = [(''_broker'', Other)]\<rparr>, w)"

subsection \<open>Fields by direction\<close>

text \<open>
  The specification speaks of the fields whose direction is Input and of those whose
  direction is Output.  Read from the member names, the Input kinds are \<open>INPUT_BIT\<close>,
  \<open>DIGITAL_INPUT\<close> and \<open>ANALOG_INPUT\<close>, the Output kinds \<open>OUTPUT_BIT\<close>,
  \<open>DIGITAL_OUTPUT\<close> and \<open>ANALOG_OUTPUT\<close>.  \<open>direction_fields P h d\<close> lists, in
  the order of the dictionary, the attributes that are instances of \<open>Field\<close> whose
  \<open>ioType\<close> is a kind satisfying \<open>P\<close>.  These definitions state the specification;
  the code's own test is \<open>select_fields\<close> above.
\<close>

fun is_Input :: "FieldType \<Rightarrow> bool" where
  "is_Input INPUT_BIT = True"
| "is_Input DIGITAL_INPUT = True"
| "is_Input ANALOG_INPUT = True"
| "is_Input t = False"

fun is_Output :: "FieldType \<Rightarrow> bool" where
  "is_Output OUTPUT_BIT = True"
| "is_Output DIGITAL_OUTPUT = True"
| "is_Output ANALOG_OUTPUT = True"
| "is_Output t = False"

definition has_direction :: "(FieldType \<Rightarrow> bool) \<Rightarrow> pyobject \<Rightarrow> bool" where
  "has_direction P obj =
     (case dict obj ''ioType'' of Some (V (PFieldType t)) \<Rightarrow> P t | other \<Rightarrow> False)"

fun direction_fields ::
  "(FieldType \<Rightarrow> bool) \<Rightarrow> heap \<Rightarrow> (string \<times> attribute) list \<Rightarrow> (string \<times> addr) list" where
  "direction_fields P h [] = []"
| "direction_fields P h ((key, Other) # rest) = direction_fields P h rest"
| "direction_fields P h ((key, Ref a) # rest) =
     (case h a of
        None \<Rightarrow> direction_fields P h rest
      | Some obj \<Rightarrow>
          if isinstance_Field obj \<and> has_direction P obj
          then (key, a) # direction_fields P h rest
          else direction_fields P h rest)"

subsection \<open>A small plant\<close>

text \<open>
  The examples below run the orchestrator on three digital fields: an input \<open>IN\<close>, an
  output \<open>OUT\<close> and a field \<open>AUX\<close> whose kind \<open>DIGITAL_BIT\<close> carries no direction.
  Their codec is the part of JSON made of the literals \<open>true\<close>, \<open>false\<close> and
  \<open>null\<close>: every other text fails to decode, and no other value is encoded.
\<close>

definition literal_loads :: "string \<Rightarrow> error + attrval" where
  "literal_loads s =
     (if s = ''true'' then Inr (V (PBool True))
      else if s = ''false'' then Inr (V (PBool False))
      else if s = ''null'' then Inr (V PNone)
      else Inl JSONDecodeError)"

fun literal_dumps :: "attrval \<Rightarrow> error + string" where
  "literal_dumps (V (PBool b)) = Inr (if b then ''true'' else ''false'')"
| "literal_dumps (V PNone) = Inr ''null''"
| "literal_dumps x = Inl TypeError"

definition json_literals :: json where
  "json_literals = \<lparr>dumps = literal_dumps, loads = literal_loads\<rparr>"

definition example_fields :: heap where
  "example_fields =
     [0 \<mapsto> \<lparr>cls = Field_class,
             dict = [''name'' \<mapsto> V (PStr ''IN''), ''ioType'' \<mapsto> V (PFieldType DIGITAL_INPUT),
                     ''value'' \<mapsto> V (PBool False), ''hide'' \<mapsto> V PNone]\<rparr>,
      1 \<mapsto> \<lparr>cls = Field_class,
             dict = [''name'' \<mapsto> V (PStr ''OUT''), ''ioType'' \<mapsto> V (PFieldType DIGITAL_OUTPUT),
                     ''value'' \<mapsto> V (PBool True), ''hide'' \<mapsto> V PNone]\<rparr>,
      2 \<mapsto> \<lparr>cls = Field_class,
             dict = [''name'' \<mapsto> V (PStr ''AUX''), ''ioType'' \<mapsto> V (PFieldType DIGITAL_BIT),
                     ''value'' \<mapsto> V (PBool False), ''hide'' \<mapsto> V PNone]\<rparr>]"

definition example_process :: Process where
  "example_process =
     \<lparr>p_dict = [(''_broker'', Other), (''_factor'', Other), (''IN'', Ref 0), (''OUT'', Ref 1),
                (''AUX'', Ref 2), (''_env'', Other), (''_verbose'', Other)]\<rparr>"

definition example_world :: "(string \<rightharpoonup> string) \<Rightarrow> bool \<Rightarrow> world" where
  "example_world store up =
     \<lparr>w_heap = example_fields, w_next = 3, w_broker = \<lparr>kv = store, online = up\<rparr>,
      w_trace = []\<rparr>"

text \<open>The configuration that yields these fields, and one with a field without io type.\<close>

definition example_variables :: "(string \<times> variable) list" where
  "example_variables =
     [(''IN'', \<lparr>v_ioType = Some ''DIGITAL_INPUT'', v_compositeType = None,
               v_value = Some (V (PBool False)), v_hide = None\<rparr>),
      (''OUT'', \<lparr>v_ioType = Some ''DIGITAL_OUTPUT'', v_compositeType = None,
               v_value = Some (V (PBool True)), v_hide = None\<rparr>),
      (''AUX'', \<lparr>v_ioType = Some ''DIGITAL_BIT'', v_compositeType = None,
               v_value = Some (V (PBool False)), v_hide = None\<rparr>)]"

definition internal_variable :: "(string \<times> variable) list" where
  "internal_variable =
     [(''X'', \<lparr>v_ioType = None, v_compositeType = None,
              v_value = Some (V (PBool False)), v_hide = None\<rparr>)]"

definition empty_world :: world where
  "empty_world =
     \<lparr>w_heap = Map.empty, w_next = 0, w_broker = \<lparr>kv = Map.empty, online = True\<rparr>,
      w_trace = []\<rparr>"

section \<open>The component framework (scenarios/hydro/components/component.py)\<close>

text \<open>
  A component holds its update period and runs, as a process of the simulation,
  \<^verbatim>\<open>
  def process(self):
      while True:
          self._updateWaterPump()
          ...
          yield self.env.timeout(self.UPDATE_TICK)
  \<close>
  (this is \<open>Cooling.process\<close>; the other components have the same shape).  The
  statements before the \<open>yield\<close> are one function \<open>update\<close> on the state the
  components share, the fields they read and write in place.
\<close>

record 's Component =
  UPDATE_TICK :: nat
  update :: "'s \<Rightarrow> 's"

subsection \<open>The scheduler\<close>

text \<open>
  Modelled from the spec: the cooperative scheduler, the simulation library's
  environment, which is an external collaborator and not among the sources.  The
  specification says of it: the scheduler advances one logical tick; every registered
  process is resumed in registration order for that tick before the clock advances
  again; exactly one process executes at a time and suspension happens only at the
  explicit yields; a component suspends for its update period.

  The environment holds the clock, the registered processes in registration order,
  each with the time at which it is to be resumed next, and the shared state.
\<close>

record 's Environment =
  now :: nat
  processes :: "('s Component \<times> nat) list"
  shared :: 's

definition Environment_init :: "'s \<Rightarrow> 's Environment" where
  "Environment_init s = \<lparr>now = 0, processes = [], shared = s\<rparr>"

text \<open>\<open>env.process(generator)\<close>: the process is registered and starts at the current time.\<close>

definition env_process :: "'s Environment \<Rightarrow> 's Component \<Rightarrow> 's Environment" where
  "env_process env c = env\<lparr>processes := processes env @ [(c, now env)]\<rparr>"

text \<open>
  One tick goes through the processes in registration order and resumes those that are
  due: the process runs its update on the shared state and is due again after its
  period.  Each resumption is recorded as the index of the process, the state it found
  and the state it left.
\<close>

fun sweep ::
  "nat \<Rightarrow> nat \<Rightarrow> ('s Component \<times> nat) list \<Rightarrow> 's
     \<Rightarrow> ('s Component \<times> nat) list \<times> 's \<times> (nat \<times> 's \<times> 's) list" where
  "sweep t i [] s = ([], s, [])"
| "sweep t i ((c, wake) # rest) s =
     (if wake = t then
        (case sweep t (Suc i) rest (update c s) of
           (rest', s', seen) \<Rightarrow> ((c, t + UPDATE_TICK c) # rest', s', (i, s, update c s) # seen))
      else
        (case sweep t (Suc i) rest s of
           (rest', s', seen) \<Rightarrow> ((c, wake) # rest', s', seen)))"

definition tick :: "'s Environment \<Rightarrow> 's Environment \<times> (nat \<times> 's \<times> 's) list" where
  "tick env =
     (case sweep (now env) 0 (processes env) (shared env) of
        (ps, s, seen) \<Rightarrow> (\<lparr>now = Suc (now env), processes = ps, shared = s\<rparr>, seen))"

text \<open>\<open>env.run(until=n)\<close>: the first \<open>n\<close> ticks, with the record of each.\<close>

fun run :: "nat \<Rightarrow> 's Environment \<Rightarrow> 's Environment \<times> (nat \<times> 's \<times> 's) list list" where
  "run 0 env = (env, [])"
| "run (Suc n) env =
     (case run n env of
        (env1, seen) \<Rightarrow> (case tick env1 of (env2, new) \<Rightarrow> (env2, seen @ [new])))"

text \<open>
  What the record says of process \<open>k\<close> in tick \<open>t\<close>: the state it was resumed with and
  the state it left, if it ran in that tick.
\<close>

definition resumed :: "(nat \<times> 's \<times> 's) list list \<Rightarrow> nat \<Rightarrow> nat \<Rightarrow> ('s \<times> 's) option" where
  "resumed logs t k = (if t < length logs then map_of (logs ! t) k else None)"

subsection \<open>Registration of the components\<close>

text \<open>
  \<^verbatim>\<open>
  def __init__(self, env, updateTick=1):
      self._env = env
      self.UPDATE_TICK = updateTick
      self._env.process(self.process())
  \<close>
  Every component of the scenario calls it as \<open>super().__init__(env)\<close>, with the
  default period 1.
\<close>

definition Component_init :: "'s Environment \<Rightarrow> ('s \<Rightarrow> 's) \<Rightarrow> nat \<Rightarrow> 's Environment" where
  "Component_init env step updateTick =
     env_process env \<lparr>UPDATE_TICK = updateTick, update = step\<rparr>"

text \<open>Building the components one after the other, each with its update step and period.\<close>

definition register_all ::
  "'s Environment \<Rightarrow> (('s \<Rightarrow> 's) \<times> nat) list \<Rightarrow> 's Environment" where
  "register_all env specs =
     foldl (\<lambda>e (step, updateTick). Component_init e step updateTick) env specs"

subsection \<open>Notions used in the proofs\<close>

text \<open>
  The three components of a sweep on their own, the components a list of
  registrations builds, the property that the processes in \<open>K\<close> are due at the current
  time, and the state process \<open>k\<close> finds when the current tick reaches it.
\<close>

definition sweep_state :: "nat \<Rightarrow> ('s Component \<times> nat) list \<Rightarrow> 's \<Rightarrow> 's" where
  "sweep_state t ps s = fold (\<lambda>(c, wake) s. if wake = t then update c s else s) ps s"

fun sweep_seen ::
  "nat \<Rightarrow> nat \<Rightarrow> ('s Component \<times> nat) list \<Rightarrow> 's \<Rightarrow> (nat \<times> 's \<times> 's) list" where
  "sweep_seen t i [] s = []"
| "sweep_seen t i ((c, wake) # rest) s =
     (if wake = t then (i, s, update c s) # sweep_seen t (Suc i) rest (update c s)
      else sweep_seen t (Suc i) rest s)"

definition components :: "(('s \<Rightarrow> 's) \<times> nat) list \<Rightarrow> 's Component list" where
  "components specs = map (\<lambda>(step, updateTick). \<lparr>UPDATE_TICK = updateTick, update = step\<rparr>) specs"

definition in_step :: "'s Component list \<Rightarrow> nat set \<Rightarrow> 's Environment \<Rightarrow> bool" where
  "in_step cs K env \<longleftrightarrow>
     map fst (processes env) = cs \<and> (\<forall>k\<in>K. k < length cs \<and> snd (processes env ! k) = now env)"

definition before :: "nat \<Rightarrow> 's Environment \<Rightarrow> 's" where
  "before k env = sweep_state (now env) (take k (processes env)) (shared env)"

text \<open>
  Two components on a pair of numbers: the writer increments the first number, the
  reader copies the first number into the second.
\<close>

definition writer :: "int \<times> int \<Rightarrow> int \<times> int" where
  "writer s = (fst s + 1, snd s)"

definition reader :: "int \<times> int \<Rightarrow> int \<times> int" where
  "reader s = (fst s, fst s)"

text \<open>A third component, which also writes the first number: it sets it back to 0.\<close>

definition eraser :: "int \<times> int \<Rightarrow> int \<times> int" where
  "eraser s = (0, snd s)"

section \<open>Properties of the field model\<close>

subsection \<open>The disconnector\<close>

text \<open>
  C10.  The constructor of \<open>DisconnectorStateField\<close> never returns an instance: for a
  valid initial state, whatever the name, the io type and the hide flag, it raises
  AttributeError.  The first assignment to \<open>value\<close>, made by \<open>Field.__init__\<close>, goes
  through the overriding \<open>__setattr__\<close>, which reads the current value while the
  instance has no attribute \<open>value\<close> yet.
\<close>

theorem DisconnectorStateField_init_raises:
  "DisconnectorStateField name io_type (V (PDisconnector d)) hide = Inl AttributeError"
  by (simp add: DisconnectorStateField_def Field_init_def setattr_def new_object_def
      DisconnectorStateField_setattr_def and_then_def object_setattr_def getattribute_def)

text \<open>
  C4.  For a disconnector whose current value is Broken, assigning any value \<open>v\<close>
  (Broken included) raises ValueError to the caller, and the heap is the one before the
  assignment: the stored value is still Broken.
\<close>

theorem broken_rejects_every_write:
  assumes "h a = Some obj"
    and "cls obj = DisconnectorStateField_class"
    and "dict obj ''value'' = Some (V (PDisconnector D_BROKEN))"
  shows "heap_setattr h a ''value'' v = (h, Some ValueError) \<and>
         heap_getattr (fst (heap_setattr h a ''value'' v)) a ''value''
           = Inr (V (PDisconnector D_BROKEN))"
  using assms
  by (simp add: heap_setattr_def heap_getattr_def setattr_def
      DisconnectorStateField_setattr_def getattribute_def)

theorem broken_rejects_every_write_witness:
  "heap_setattr
     [0 \<mapsto> \<lparr>cls = DisconnectorStateField_class,
             dict = [''_observer'' \<mapsto> V PNone, ''value'' \<mapsto> V (PDisconnector D_BROKEN)]\<rparr>]
     0 ''value'' (V (PDisconnector D_CLOSED))
   = ([0 \<mapsto> \<lparr>cls = DisconnectorStateField_class,
              dict = [''_observer'' \<mapsto> V PNone, ''value'' \<mapsto> V (PDisconnector D_BROKEN)]\<rparr>],
      Some ValueError)"
  using broken_rejects_every_write
    [of "[0 \<mapsto> \<lparr>cls = DisconnectorStateField_class,
             dict = [''_observer'' \<mapsto> V PNone, ''value'' \<mapsto> V (PDisconnector D_BROKEN)]\<rparr>]"
        0 _ "V (PDisconnector D_CLOSED)"]
  by simp





subsection \<open>Collections and the breaker\<close>

lemma check_members_None_iff:
  "check_members h fs = None \<longleftrightarrow> (\<forall>a\<in>set fs. \<exists>obj. h a = Some obj \<and> isinstance_Field obj)"
  by (induction fs) (auto split: option.splits sum.splits)

text \<open>
  C9, as amended.  Constructing a collection succeeds when every supplied member is an
  instance of \<open>Field\<close>, and then keeps the supplied list; it raises when some member is
  not.  The membership is not fixed afterwards: the setter of the property \<open>fields\<close>
  replaces it by whatever list it is given, unchecked.
\<close>

theorem FieldCollection_membership:
  "((\<forall>a\<in>set fs. \<exists>obj. h a = Some obj \<and> isinstance_Field obj)
      \<longrightarrow> (\<exists>c. FieldCollection_init h fs = Inr c \<and> FieldCollection_fields c = fs))
   \<and> ((\<exists>a\<in>set fs. \<forall>obj. h a = Some obj \<longrightarrow> \<not> isinstance_Field obj)
      \<longrightarrow> (\<exists>e. FieldCollection_init h fs = Inl e))
   \<and> FieldCollection_fields (FieldCollection_set_fields self gs) = gs"
proof (intro conjI impI)
  assume "\<forall>a\<in>set fs. \<exists>obj. h a = Some obj \<and> isinstance_Field obj"
  then have "check_members h fs = None" by (simp add: check_members_None_iff)
  then show "\<exists>c. FieldCollection_init h fs = Inr c \<and> FieldCollection_fields c = fs"
    by (simp add: FieldCollection_init_def FieldCollection_fields_def)
next
  assume "\<exists>a\<in>set fs. \<forall>obj. h a = Some obj \<longrightarrow> \<not> isinstance_Field obj"
  then have "check_members h fs \<noteq> None" by (auto simp add: check_members_None_iff)
  then show "\<exists>e. FieldCollection_init h fs = Inl e"
    by (auto simp add: FieldCollection_init_def)
next
  show "FieldCollection_fields (FieldCollection_set_fields self gs) = gs"
    by (simp add: FieldCollection_fields_def FieldCollection_set_fields_def)
qed

theorem FieldCollection_membership_witness:
  "FieldCollection_init
     [0 \<mapsto> \<lparr>cls = Field_class, dict = [''name'' \<mapsto> V (PStr ''F'')]\<rparr>,
      1 \<mapsto> \<lparr>cls = Other_class, dict = Map.empty\<rparr>] [0] = Inr \<lparr>fields_attr = [0]\<rparr>
   \<and> FieldCollection_init
     [0 \<mapsto> \<lparr>cls = Field_class, dict = [''name'' \<mapsto> V (PStr ''F'')]\<rparr>,
      1 \<mapsto> \<lparr>cls = Other_class, dict = Map.empty\<rparr>] [0, 1] = Inl AttributeError"
  using FieldCollection_membership
    [of "[0]" "[0 \<mapsto> \<lparr>cls = Field_class, dict = [''name'' \<mapsto> V (PStr ''F'')]\<rparr>,
               1 \<mapsto> \<lparr>cls = Other_class, dict = Map.empty\<rparr>]"]
    FieldCollection_membership
    [of "[0, 1]" "[0 \<mapsto> \<lparr>cls = Field_class, dict = [''name'' \<mapsto> V (PStr ''F'')]\<rparr>,
               1 \<mapsto> \<lparr>cls = Other_class, dict = Map.empty\<rparr>]"]
  by (simp add: FieldCollection_init_def isinstance_Field_def getattribute_def)

text \<open>
  The claim C9 as stated fails: after a collection was built on the field at address 0,
  the setter makes the object at address 1, which is no field, its only member.
\<close>

theorem FieldCollection_membership_not_immutable:
  "FieldCollection_init
     [0 \<mapsto> \<lparr>cls = Field_class, dict = [''name'' \<mapsto> V (PStr ''F'')]\<rparr>,
      1 \<mapsto> \<lparr>cls = Other_class, dict = Map.empty\<rparr>] [0] = Inr \<lparr>fields_attr = [0]\<rparr>
   \<and> FieldCollection_fields (FieldCollection_set_fields \<lparr>fields_attr = [0]\<rparr> [1]) = [1]
   \<and> FieldCollection_fields (FieldCollection_set_fields \<lparr>fields_attr = [0]\<rparr> [1])
       \<noteq> FieldCollection_fields \<lparr>fields_attr = [0]\<rparr>"
  by (simp add: FieldCollection_init_def FieldCollection_fields_def FieldCollection_set_fields_def
      isinstance_Field_def)

lemma plain_setattr:
  "cls obj \<noteq> DisconnectorStateField_class \<Longrightarrow> setattr obj n v = Inr (object_setattr obj n v)"
  by (simp add: setattr_def)

text \<open>
  C6, as amended.  For a breaker whose two members are distinct objects, neither of them
  a disconnector: writing any of the four states \<open>s\<close> succeeds, whatever the state
  before; it stores the pair of \<open>s\<close> in the two members; and reading afterwards yields
  \<open>s\<close>.  Reading derives the state from the pair: members holding \<open>x\<close> and \<open>y\<close> read as
  the state whose pair is \<open>(x, y)\<close>, so (False, True) reads as Closed and (True, True)
  as Broken.
\<close>

theorem breaker_write_then_read:
  assumes "FieldCollection_fields self = [a, b]" and "a \<noteq> b"
    and "h a = Some oa" and "h b = Some ob"
    and "cls oa \<noteq> DisconnectorStateField_class" and "cls ob \<noteq> DisconnectorStateField_class"
  shows "(\<exists>h'. BreakerStateField_set_value h self (V (PBreaker s)) = (h', None)
           \<and> heap_getattr h' a ''value'' = Inr (V (PBool (fst (BreakerStateType_value s))))
           \<and> heap_getattr h' b ''value'' = Inr (V (PBool (snd (BreakerStateType_value s))))
           \<and> BreakerStateField_value h' self = Inr s)
       \<and> (dict oa ''value'' = Some (V (PBool x)) \<and> dict ob ''value'' = Some (V (PBool y))
            \<longrightarrow> BreakerStateField_value h self = Inr (BreakerStateType_of (x, y)))"
  using assms
  by (cases s)
    (simp_all add: BreakerStateField_set_value_def BreakerStateField_value_def heap_setattr_def
      heap_getattr_def plain_setattr object_setattr_def getattribute_def and_then_def)

theorem breaker_write_then_read_witness:
  "BreakerStateField_value
     (fst (BreakerStateField_set_value
        [0 \<mapsto> \<lparr>cls = Field_class, dict = [''value'' \<mapsto> V (PBool False)]\<rparr>,
         1 \<mapsto> \<lparr>cls = Field_class, dict = [''value'' \<mapsto> V (PBool False)]\<rparr>]
        \<lparr>fields_attr = [0, 1]\<rparr> (V (PBreaker B_CLOSED))))
     \<lparr>fields_attr = [0, 1]\<rparr> = Inr B_CLOSED
   \<and> BreakerStateField_value
     [0 \<mapsto> \<lparr>cls = Field_class, dict = [''value'' \<mapsto> V (PBool True)]\<rparr>,
      1 \<mapsto> \<lparr>cls = Field_class, dict = [''value'' \<mapsto> V (PBool True)]\<rparr>]
     \<lparr>fields_attr = [0, 1]\<rparr> = Inr B_BROKEN"
  using breaker_write_then_read
    [where self = "\<lparr>fields_attr = [0, 1]\<rparr>" and a = 0 and b = 1
       and h = "[0 \<mapsto> \<lparr>cls = Field_class, dict = [''value'' \<mapsto> V (PBool False)]\<rparr>,
                1 \<mapsto> \<lparr>cls = Field_class, dict = [''value'' \<mapsto> V (PBool False)]\<rparr>]"
       and oa = "\<lparr>cls = Field_class, dict = [''value'' \<mapsto> V (PBool False)]\<rparr>"
       and ob = "\<lparr>cls = Field_class, dict = [''value'' \<mapsto> V (PBool False)]\<rparr>"
       and s = B_CLOSED]
    breaker_write_then_read
    [where self = "\<lparr>fields_attr = [0, 1]\<rparr>" and a = 0 and b = 1
       and h = "[0 \<mapsto> \<lparr>cls = Field_class, dict = [''value'' \<mapsto> V (PBool True)]\<rparr>,
                1 \<mapsto> \<lparr>cls = Field_class, dict = [''value'' \<mapsto> V (PBool True)]\<rparr>]"
       and oa = "\<lparr>cls = Field_class, dict = [''value'' \<mapsto> V (PBool True)]\<rparr>"
       and ob = "\<lparr>cls = Field_class, dict = [''value'' \<mapsto> V (PBool True)]\<rparr>"
       and x = True and y = True]
  by (simp add: FieldCollection_fields_def BreakerStateField_set_value_def
      BreakerStateField_value_def heap_setattr_def heap_getattr_def setattr_def
      object_setattr_def getattribute_def and_then_def)

text \<open>
  The claim C6 as stated fails when both members are one and the same field: the
  constructor accepts the list, the second assignment overwrites the first, and the
  breaker written as Closed reads as Broken.
\<close>

theorem breaker_with_one_shared_member:
  "snd (BreakerStateField
          [0 \<mapsto> \<lparr>cls = Field_class, dict = [''value'' \<mapsto> V (PBool False)]\<rparr>]
          [0, 0] (V (PBreaker B_CLOSED))) = Inr \<lparr>fields_attr = [0, 0]\<rparr>
   \<and> BreakerStateField_value
       (fst (BreakerStateField
          [0 \<mapsto> \<lparr>cls = Field_class, dict = [''value'' \<mapsto> V (PBool False)]\<rparr>]
          [0, 0] (V (PBreaker B_CLOSED))))
       \<lparr>fields_attr = [0, 0]\<rparr> = Inr B_BROKEN"
  by (simp add: BreakerStateField_def FieldCollection_init_def isinstance_Field_def
      BreakerStateField_set_value_def BreakerStateField_value_def heap_setattr_def
      heap_getattr_def setattr_def object_setattr_def getattribute_def and_then_def
      FieldCollection_fields_def)

subsection \<open>The fluid composition\<close>





text \<open>
  A field built without a composition map is the same whatever the arithmetic: none is
  performed.
\<close>

lemma FluidField_without_composition:
  "FluidField ar name io_type val hide None temp = FluidField ar' name io_type val hide None temp"
  by (simp add: FluidField_def FluidField_stored_def)




section \<open>Properties of the orchestrator\<close>

subsection \<open>The selection of the fields\<close>

lemma input_bit: "FieldType_value t = Some n \<Longrightarrow> (n AND 1 = 0) = (\<not> is_Input t)"
  by (cases t) auto

lemma output_bit: "FieldType_value t = Some n \<Longrightarrow> (n AND 2 = 0) = (\<not> is_Output t)"
  by (cases t) auto

lemma input_cond_Inr:
  "input_cond obj = Inr b \<Longrightarrow> b = has_direction is_Input obj"
  unfolding input_cond_def ioType_and_def and_then_def getattribute_def has_direction_def
  by (auto split: option.splits sum.splits attrval.splits pyval.splits elim!: value_and.elims
      simp add: input_bit)

lemma output_cond_Inr:
  "output_cond False obj = Inr b \<Longrightarrow> b = has_direction is_Output obj"
  unfolding output_cond_def ioType_and_def and_then_def getattribute_def has_direction_def
  by (auto split: option.splits sum.splits attrval.splits pyval.splits elim!: value_and.elims
      simp add: output_bit)

lemma select_input:
  "select_fields h input_cond d = Inr sel \<Longrightarrow> sel = direction_fields is_Input h d"
proof (induction h input_cond d arbitrary: sel rule: select_fields.induct)
  case (1 h cond)
  then show ?case by simp
next
  case (2 h cond key rest)
  then show ?case by simp
next
  case (3 h cond key a rest)
  then show ?case
    by (auto split: option.splits if_splits sum.splits dest: input_cond_Inr)
qed


lemma select_output:
  "select_fields h (output_cond False) d = Inr sel \<Longrightarrow> sel = direction_fields is_Output h d"
proof (induction h "output_cond False" d arbitrary: sel rule: select_fields.induct)
  case (1 h)
  then show ?case by simp
next
  case (2 h key rest)
  then show ?case by simp
next
  case (3 h key a rest)
  then show ?case
    by (auto split: option.splits if_splits sum.splits dest: output_cond_Inr)
qed

lemma direction_fields_subset:
  "(k, a) \<in> set (direction_fields P h d) \<Longrightarrow> (k, Ref a) \<in> set d"
  by (induction P h d rule: direction_fields.induct) (auto split: option.splits if_splits)

lemma direction_fields_map_of:
  assumes "distinct (map fst d)" and "(k, a) \<in> set (direction_fields P h d)"
  shows "map_of d k = Some (Ref a)"
  using assms by (simp add: direction_fields_subset)

lemma retrieve_loop_append:
  "retrieve_loop js self (xs @ ys) w =
     (case retrieve_loop js self xs w of
        (w1, Some e) \<Rightarrow> (w1, Some e)
      | (w1, None) \<Rightarrow> retrieve_loop js self ys w1)"
  by (induction js self xs w rule: retrieve_loop.induct)
     (auto simp add: Let_def split: sum.splits option.splits attribute.splits)

lemma publish_loop_append:
  "publish_loop js (xs @ ys) w =
     (case publish_loop js xs w of
        (w1, Some e) \<Rightarrow> (w1, Some e)
      | (w1, None) \<Rightarrow> publish_loop js ys w1)"
  by (induction js xs w rule: publish_loop.induct)
     (auto simp add: Let_def split: sum.splits option.splits)

lemma retrieve_loop_ok:
  "retrieve_loop js self sel w = (w1, None) \<Longrightarrow>
     w_trace w1 = w_trace w @ map (\<lambda>(k, a). BrokerGet k) sel \<and> w_broker w1 = w_broker w"
  by (induction js self sel w rule: retrieve_loop.induct)
     (auto simp add: Let_def split: sum.splits option.splits attribute.splits)

lemma retrieve_loop_frame:
  "retrieve_loop js self sel w = (w1, None) \<Longrightarrow>
   \<forall>(k, a)\<in>set sel. map_of (p_dict self) k = Some (Ref a) \<Longrightarrow>
   x \<notin> snd ` set sel \<Longrightarrow> w_heap w1 x = w_heap w x"
  by (induction js self sel w rule: retrieve_loop.induct)
     (auto simp add: Let_def split: sum.splits option.splits attribute.splits)

lemma retrieve_loop_effect:
  "retrieve_loop js self sel w = (w1, None) \<Longrightarrow>
   \<forall>(k, a)\<in>set sel. map_of (p_dict self) k = Some (Ref a) \<Longrightarrow>
   distinct (map snd sel) \<Longrightarrow>
   \<forall>(k, a)\<in>set sel. \<exists>obj obj'. w_heap w a = Some obj
       \<and> fromJSON js obj (kv (w_broker w) k) = Inr obj' \<and> w_heap w1 a = Some obj'"
proof (induction sel arbitrary: w)
  case Nil
  then show ?case by simp
next
  case (Cons p rest)
  obtain name var where p: "p = (name, var)" by (cases p)
  let ?w1 = "w\<lparr>w_trace := w_trace w @ [BrokerGet name]\<rparr>"
  from Cons.prems(1,2) obtain val obj obj' where
    g: "broker_get (w_broker w) name = Inr val"
    and o: "w_heap w var = Some obj"
    and f: "fromJSON js obj val = Inr obj'"
    and r: "retrieve_loop js self rest (?w1\<lparr>w_heap := (w_heap ?w1)(var \<mapsto> obj')\<rparr>) = (w1, None)"
    unfolding p
    by (auto simp add: Let_def split: sum.splits option.splits attribute.splits)
  have v: "val = kv (w_broker w) name"
    using g by (auto simp add: broker_get_def split: if_splits)
  have m: "\<forall>(k, a)\<in>set rest. map_of (p_dict self) k = Some (Ref a)"
    using Cons.prems(2) by simp
  have notin: "var \<notin> snd ` set rest" using Cons.prems(3) unfolding p by auto
  have keep: "w_heap w1 var = Some obj'"
    using retrieve_loop_frame[OF r m notin] by simp
  have IH: "\<forall>(k, a)\<in>set rest. \<exists>ob ob'.
        w_heap (?w1\<lparr>w_heap := (w_heap ?w1)(var \<mapsto> obj')\<rparr>) a = Some ob
         \<and> fromJSON js ob (kv (w_broker (?w1\<lparr>w_heap := (w_heap ?w1)(var \<mapsto> obj')\<rparr>)) k) = Inr ob'
         \<and> w_heap w1 a = Some ob'"
    using Cons.IH[OF r m] Cons.prems(3) by simp
  have rest_ok: "\<exists>ob ob'. w_heap w a = Some ob \<and> fromJSON js ob (kv (w_broker w) k) = Inr ob'
        \<and> w_heap w1 a = Some ob'" if ka: "(k, a) \<in> set rest" for k a
  proof -
    have "a \<noteq> var" using notin ka by force
    with IH ka show ?thesis by fastforce
  qed
  have head_ok: "\<exists>ob ob'. w_heap w var = Some ob \<and> fromJSON js ob (kv (w_broker w) name) = Inr ob'
        \<and> w_heap w1 var = Some ob'"
    using o f keep v by auto
  show ?case unfolding p using head_ok rest_ok by auto
qed

lemma publish_loop_ok:
  "publish_loop js sel w = (w', None) \<Longrightarrow>
     w_heap w' = w_heap w \<and>
     (\<exists>sets. w_trace w' = w_trace w @ sets \<and>
        list_all2 (\<lambda>ev (k, a). \<exists>obj s. w_heap w a = Some obj \<and> toJSON js obj = Inr s
                      \<and> ev = BrokerSet k s) sets sel) \<and>
     (\<forall>k. k \<notin> fst ` set sel \<longrightarrow> kv (w_broker w') k = kv (w_broker w) k)"
proof (induction sel arbitrary: w)
  case Nil
  then show ?case by simp
next
  case (Cons p rest)
  obtain name var where p: "p = (name, var)" by (cases p)
  let ?Q = "\<lambda>h ev (k, a). \<exists>obj s. h a = Some obj \<and> toJSON js obj = Inr s \<and> ev = BrokerSet k s"
  from Cons.prems obtain obj val b where
    o: "w_heap w var = Some obj" and t: "toJSON js obj = Inr val"
    and b: "broker_set (w_broker w) name val = Inr b"
    and r: "publish_loop js rest (w\<lparr>w_trace := w_trace w @ [BrokerSet name val], w_broker := b\<rparr>) = (w', None)"
    unfolding p by (auto simp add: Let_def split: sum.splits option.splits)
  have bb: "kv b = (kv (w_broker w))(name \<mapsto> val)"
    using b by (auto simp add: broker_set_def split: if_splits)
  from Cons.IH[OF r]
  have h: "w_heap w' = w_heap w"
    and ex: "\<exists>sets. w_trace w' = (w_trace w @ [BrokerSet name val]) @ sets \<and>
        list_all2 (?Q (w_heap w)) sets rest"
    and k: "\<forall>k. k \<notin> fst ` set rest \<longrightarrow> kv (w_broker w') k = kv b k"
    by simp_all
  from ex obtain sets where s: "w_trace w' = (w_trace w @ [BrokerSet name val]) @ sets"
    and l: "list_all2 (?Q (w_heap w)) sets rest" by blast
  have s': "w_trace w' = w_trace w @ (BrokerSet name val # sets)" using s by simp
  have l': "list_all2 (?Q (w_heap w)) (BrokerSet name val # sets) (p # rest)"
    using l o t unfolding p by simp
  have k': "\<forall>k. k \<notin> fst ` set (p # rest) \<longrightarrow> kv (w_broker w') k = kv (w_broker w) k"
    using k bb unfolding p by auto
  show ?case using h s' l' k' by blast
qed

subsection \<open>Failures\<close>

lemma select_fields_members:
  "select_fields h c d = Inr sel \<Longrightarrow> \<forall>(k, a)\<in>set sel. (k, Ref a) \<in> set d \<and> h a \<noteq> None"
proof (induction d arbitrary: sel)
  case Nil
  then show ?case by simp
next
  case (Cons p rest)
  obtain key v where p: "p = (key, v)" by (cases p)
  show ?case
  proof (cases v)
    case Other
    with Cons p show ?thesis by auto
  next
    case (Ref b)
    show ?thesis
    proof (cases "h b")
      case None
      with Cons p Ref show ?thesis by auto
    next
      case (Some obj)
      show ?thesis
      proof (cases "isinstance_Field obj")
        case False
        with Cons p Ref Some show ?thesis by auto
      next
        case True
        from Cons.prems obtain bb sel' where c: "c obj = Inr bb"
          and r: "select_fields h c rest = Inr sel'"
          and s: "sel = (if bb then (key, b) # sel' else sel')"
          unfolding p Ref using Some True
          by (auto split: sum.splits)
        from Cons.IH[OF r] have "\<forall>(k, a)\<in>set sel'. (k, Ref a) \<in> set rest \<and> h a \<noteq> None" .
        then show ?thesis unfolding p Ref s using Some by auto
      qed
    qed
  qed
qed

lemma select_fields_member:
  "select_fields h c d = Inr sel \<Longrightarrow> (k, a) \<in> set sel \<Longrightarrow> (k, Ref a) \<in> set d \<and> h a \<noteq> None"
  using select_fields_members by fastforce

lemma retrieve_loop_dom:
  "retrieve_loop js self sel w = (w1, r) \<Longrightarrow> w_heap w x \<noteq> None \<Longrightarrow> w_heap w1 x \<noteq> None"
proof (induction sel arbitrary: w)
  case Nil
  then show ?case by simp
next
  case (Cons p rest)
  obtain name var where p: "p = (name, var)" by (cases p)
  show ?case using Cons.prems Cons.IH unfolding p
    by (auto simp add: Let_def split: sum.splits option.splits attribute.splits if_splits)
qed

lemma fromJSON_miss: "fromJSON js obj None = Inl TypeError"
  by (simp add: fromJSON_def json_loads_def and_then_def)

lemma fromJSON_decode: "loads js s = Inl e \<Longrightarrow> fromJSON js obj (Some s) = Inl e"
  by (simp add: fromJSON_def json_loads_def and_then_def)

lemma pull_failure:
  assumes d: "distinct (map fst (p_dict self))"
    and sel: "select_fields (w_heap w) input_cond (p_dict self) = Inr (pre @ (name, a) # post)"
    and pre: "retrieve_loop js self pre w = (w1, None)"
    and fail: "broker_get (w_broker w1) name = Inl e
        \<or> (broker_get (w_broker w1) name = Inr None \<and> e = TypeError)
        \<or> (\<exists>s. broker_get (w_broker w1) name = Inr (Some s) \<and> loads js s = Inl e)"
  shows "Process_process_body js self others w
           = (w1\<lparr>w_trace := w_trace w1 @ [BrokerGet name]\<rparr>, Some e)"
proof -
  have mem: "(name, Ref a) \<in> set (p_dict self)" and h0: "w_heap w a \<noteq> None"
    using select_fields_member[OF sel, of name a] by simp_all
  have m: "map_of (p_dict self) name = Some (Ref a)" using d mem by simp
  have "w_heap w1 a \<noteq> None" using retrieve_loop_dom[OF pre h0] .
  then obtain obj where o: "w_heap w1 a = Some obj" by auto
  consider (down) "broker_get (w_broker w1) name = Inl e"
    | (miss) "broker_get (w_broker w1) name = Inr None" "e = TypeError"
    | (decode) s where "broker_get (w_broker w1) name = Inr (Some s)" "loads js s = Inl e"
    using fail by blast
  then have one: "retrieve_loop js self ((name, a) # post) w1
               = (w1\<lparr>w_trace := w_trace w1 @ [BrokerGet name]\<rparr>, Some e)"
  proof cases
    case down
    then show ?thesis by (simp add: Let_def)
  next
    case miss
    then show ?thesis using m o by (simp add: Let_def fromJSON_miss)
  next
    case decode
    then show ?thesis using m o by (simp add: Let_def fromJSON_decode)
  qed
  have "retrieve_loop js self (pre @ (name, a) # post) w
               = (w1\<lparr>w_trace := w_trace w1 @ [BrokerGet name]\<rparr>, Some e)"
    by (simp only: retrieve_loop_append pre one prod.case option.case)
  then show ?thesis
    by (simp add: Process_process_body_def Process_retrieve_fields_def sel)
qed

lemma push_failure:
  assumes r: "Process_retrieve_fields js self w = (w1, None)"
    and sel: "select_fields (w_heap (suspend others 1 w1)) (output_cond False) (p_dict self)
                = Inr (pre @ (name, a) # post)"
    and pre: "publish_loop js pre (suspend others 1 w1) = (w2, None)"
    and o: "w_heap w2 a = Some obj" and t: "toJSON js obj = Inr val"
    and fail: "broker_set (w_broker w2) name val = Inl e"
  shows "Process_process_body js self others w
           = (w2\<lparr>w_trace := w_trace w2 @ [BrokerSet name val]\<rparr>, Some e)"
proof -
  have one: "publish_loop js ((name, a) # post) w2
               = (w2\<lparr>w_trace := w_trace w2 @ [BrokerSet name val]\<rparr>, Some e)"
    using o t fail by (simp add: Let_def)
  have "publish_loop js (pre @ (name, a) # post) (suspend others 1 w1)
               = (w2\<lparr>w_trace := w_trace w2 @ [BrokerSet name val]\<rparr>, Some e)"
    by (simp only: publish_loop_append pre one prod.case option.case)
  then show ?thesis
    by (simp only: Process_process_body_def r Process_publish_fields_def sel prod.case
        option.case sum.case)
qed

lemmas eval_defs =
  Process_process_body_def Process_retrieve_fields_def Process_publish_fields_def
  input_cond_def output_cond_def ioType_and_def getattribute_def and_then_def
  broker_get_def broker_set_def fromJSON_def toJSON_def json_loads_def
  json_literals_def literal_loads_def setattr_def object_setattr_def suspend_def
  isinstance_Field_def Let_def example_fields_def example_process_def example_world_def

text \<open>
  C2, as amended.  A failure of the store or of the codec during a tick is not recovered:
  the exception leaves the loop body, and with it the process.  In the pull phase, when
  the fields before \<open>name\<close> were pulled and the read of \<open>name\<close> fails, or misses (the
  store answers None, which the decoder rejects with TypeError), or returns a text that
  does not decode, the body ends with that exception in the state reached so far: the
  heap is untouched by the failing field, which keeps its prior value, and the record
  ends with the failing read, so no later field is pulled, the process does not suspend
  and nothing is pushed.  In the push phase, when the write of \<open>name\<close> fails, the body
  ends with that exception and no later field is written.
\<close>

theorem synchronization_failure_ends_the_tick:
  "(distinct (map fst (p_dict self))
      \<and> select_fields (w_heap w) input_cond (p_dict self) = Inr (pre @ (name, a) # post)
      \<and> retrieve_loop js self pre w = (w1, None)
      \<and> (broker_get (w_broker w1) name = Inl e
          \<or> (broker_get (w_broker w1) name = Inr None \<and> e = TypeError)
          \<or> (\<exists>s. broker_get (w_broker w1) name = Inr (Some s) \<and> loads js s = Inl e))
     \<longrightarrow> Process_process_body js self others w
           = (w1\<lparr>w_trace := w_trace w1 @ [BrokerGet name]\<rparr>, Some e))
   \<and> (Process_retrieve_fields js self w = (v1, None)
      \<and> select_fields (w_heap (suspend others 1 v1)) (output_cond False) (p_dict self)
           = Inr (out_pre @ (out_name, out_a) # out_post)
      \<and> publish_loop js out_pre (suspend others 1 v1) = (v2, None)
      \<and> w_heap v2 out_a = Some obj \<and> toJSON js obj = Inr val
      \<and> broker_set (w_broker v2) out_name val = Inl out_e
     \<longrightarrow> Process_process_body js self others w
           = (v2\<lparr>w_trace := w_trace v2 @ [BrokerSet out_name val]\<rparr>, Some out_e))"
proof (intro conjI impI)
  assume A: "distinct (map fst (p_dict self))
      \<and> select_fields (w_heap w) input_cond (p_dict self) = Inr (pre @ (name, a) # post)
      \<and> retrieve_loop js self pre w = (w1, None)
      \<and> (broker_get (w_broker w1) name = Inl e
          \<or> (broker_get (w_broker w1) name = Inr None \<and> e = TypeError)
          \<or> (\<exists>s. broker_get (w_broker w1) name = Inr (Some s) \<and> loads js s = Inl e))"
  then have d: "distinct (map fst (p_dict self))"
    and s: "select_fields (w_heap w) input_cond (p_dict self) = Inr (pre @ (name, a) # post)"
    and p: "retrieve_loop js self pre w = (w1, None)"
    and f: "broker_get (w_broker w1) name = Inl e
          \<or> (broker_get (w_broker w1) name = Inr None \<and> e = TypeError)
          \<or> (\<exists>s. broker_get (w_broker w1) name = Inr (Some s) \<and> loads js s = Inl e)"
    by simp_all
  show "Process_process_body js self others w
           = (w1\<lparr>w_trace := w_trace w1 @ [BrokerGet name]\<rparr>, Some e)"
    by (rule pull_failure[OF d s p f])
next
  assume B: "Process_retrieve_fields js self w = (v1, None)
      \<and> select_fields (w_heap (suspend others 1 v1)) (output_cond False) (p_dict self)
           = Inr (out_pre @ (out_name, out_a) # out_post)
      \<and> publish_loop js out_pre (suspend others 1 v1) = (v2, None)
      \<and> w_heap v2 out_a = Some obj \<and> toJSON js obj = Inr val
      \<and> broker_set (w_broker v2) out_name val = Inl out_e"
  then have r: "Process_retrieve_fields js self w = (v1, None)"
    and s: "select_fields (w_heap (suspend others 1 v1)) (output_cond False) (p_dict self)
           = Inr (out_pre @ (out_name, out_a) # out_post)"
    and p: "publish_loop js out_pre (suspend others 1 v1) = (v2, None)"
    and o: "w_heap v2 out_a = Some obj" and t: "toJSON js obj = Inr val"
    and f: "broker_set (w_broker v2) out_name val = Inl out_e"
    by simp_all
  show "Process_process_body js self others w
           = (v2\<lparr>w_trace := w_trace v2 @ [BrokerSet out_name val]\<rparr>, Some out_e)"
    by (rule push_failure[OF r s p o t f])
qed

theorem synchronization_failure_ends_the_tick_witness:
  "Process_process_body json_literals example_process (\<lambda>x. x) (example_world Map.empty False)
     = ((example_world Map.empty False)\<lparr>w_trace := [BrokerGet ''IN'']\<rparr>, Some ConnectionError)
   \<and> snd (Process_process_body json_literals example_process
            (\<lambda>(h, b). (h, b\<lparr>online := False\<rparr>)) (example_world [''IN'' \<mapsto> ''true''] True))
     = Some ConnectionError
   \<and> w_trace (fst (Process_process_body json_literals example_process
            (\<lambda>(h, b). (h, b\<lparr>online := False\<rparr>)) (example_world [''IN'' \<mapsto> ''true''] True)))
     = [BrokerGet ''IN'', Yield 1, BrokerSet ''OUT'' ''true'']"
  using synchronization_failure_ends_the_tick
    [where self = example_process and js = json_literals and others = "\<lambda>x. x"
       and w = "example_world Map.empty False" and ?w1.0 = "example_world Map.empty False"
       and pre = "[]" and name = "''IN''" and a = 0 and post = "[]" and e = ConnectionError]
    synchronization_failure_ends_the_tick
    [where self = example_process and js = json_literals
       and others = "\<lambda>(h, b). (h, b\<lparr>online := False\<rparr>)"
       and w = "example_world [''IN'' \<mapsto> ''true''] True"
       and ?v1.0 = "fst (Process_retrieve_fields json_literals example_process
                      (example_world [''IN'' \<mapsto> ''true''] True))"
       and ?v2.0 = "suspend (\<lambda>(h, b). (h, b\<lparr>online := False\<rparr>)) 1
                     (fst (Process_retrieve_fields json_literals example_process
                        (example_world [''IN'' \<mapsto> ''true''] True)))"
       and out_pre = "[]" and out_name = "''OUT''" and out_a = 1 and out_post = "[]"
       and obj = "\<lparr>cls = Field_class,
             dict = [''name'' \<mapsto> V (PStr ''OUT''), ''ioType'' \<mapsto> V (PFieldType DIGITAL_OUTPUT),
                     ''value'' \<mapsto> V (PBool True), ''hide'' \<mapsto> V PNone]\<rparr>"
       and val = "''true''" and out_e = ConnectionError]
  by (simp add: eval_defs)

text \<open>An exception in one pass ends the loop, whatever the number of passes asked for.\<close>

lemma exception_ends_the_loop:
  "Process_process_body js self others w = (w1, Some e) \<Longrightarrow>
     Process_process (Suc n) js self others w = (w1, Some e)"
  by simp

text \<open>
  The claim C2 as stated fails: with a text in the store that does not decode, the
  exception of the decoder comes out of the loop body; the process neither goes on to
  the suspension nor to the push phase.
\<close>

theorem decode_failure_leaves_the_tick:
  "Process_process_body json_literals example_process (\<lambda>x. x)
          (example_world [''IN'' \<mapsto> ''garbage''] True)
   = ((example_world [''IN'' \<mapsto> ''garbage''] True)\<lparr>w_trace := [BrokerGet ''IN'']\<rparr>,
      Some JSONDecodeError)"
  by (simp add: eval_defs)

subsection \<open>A tick that completes\<close>

text \<open>
  C3, as amended.  In every pass of the loop body that raises no exception (the
  attribute names of the process being distinct, as the keys of a dictionary are):
  the pull phase reads from the store exactly the fields whose direction is Input, in
  the order of the dictionary, writes nothing to the store, and leaves every object
  that is not such a field as it was; when these fields are distinct objects each of
  them holds its value decoded from the store's entry under its name; then the process
  suspends for one tick; then the push phase writes to the store exactly the fields
  whose direction is Output, each under its name with the encoding of its value at that
  moment, leaves the heap as the other processes left it, and leaves every other key of
  the store alone.  A field with neither direction occurs in neither phase.
\<close>

theorem tick_pulls_inputs_suspends_pushes_outputs:
  assumes d: "distinct (map fst (p_dict self))"
    and body: "Process_process_body js self others w = (w', None)"
  shows "\<exists>w1 sets.
       Process_retrieve_fields js self w = (w1, None)
     \<and> w_trace w1 = w_trace w @ map (\<lambda>(k, a). BrokerGet k)
                        (direction_fields is_Input (w_heap w) (p_dict self))
     \<and> w_broker w1 = w_broker w
     \<and> (\<forall>a. a \<notin> snd ` set (direction_fields is_Input (w_heap w) (p_dict self))
            \<longrightarrow> w_heap w1 a = w_heap w a)
     \<and> (distinct (map snd (direction_fields is_Input (w_heap w) (p_dict self))) \<longrightarrow>
          (\<forall>(k, a)\<in>set (direction_fields is_Input (w_heap w) (p_dict self)).
             \<exists>obj obj'. w_heap w a = Some obj
               \<and> fromJSON js obj (kv (w_broker w) k) = Inr obj' \<and> w_heap w1 a = Some obj'))
     \<and> w_trace w' = w_trace w1 @ [Yield 1] @ sets
     \<and> list_all2 (\<lambda>ev (k, a). \<exists>obj s. w_heap w' a = Some obj \<and> toJSON js obj = Inr s
                      \<and> ev = BrokerSet k s)
          sets (direction_fields is_Output (w_heap w') (p_dict self))
     \<and> w_heap w' = fst (others (w_heap w1, w_broker w1))
     \<and> (\<forall>k. k \<notin> fst ` set (direction_fields is_Output (w_heap w') (p_dict self))
            \<longrightarrow> kv (w_broker w') k = kv (snd (others (w_heap w1, w_broker w1))) k)"
proof -
  let ?ins = "direction_fields is_Input (w_heap w) (p_dict self)"
  obtain w1 where r: "Process_retrieve_fields js self w = (w1, None)"
    and p: "Process_publish_fields js self False (suspend others 1 w1) = (w', None)"
    using body
    by (auto simp add: Process_process_body_def split: prod.splits option.splits)
  let ?w2 = "suspend others 1 w1"
  obtain sel where s: "select_fields (w_heap w) input_cond (p_dict self) = Inr sel"
    and rl: "retrieve_loop js self sel w = (w1, None)"
    using r by (auto simp add: Process_retrieve_fields_def split: sum.splits)
  have sel: "sel = ?ins" using select_input[OF s] .
  have mo: "\<forall>(k, a)\<in>set ?ins. map_of (p_dict self) k = Some (Ref a)"
    using direction_fields_map_of[OF d] by auto
  have t1: "w_trace w1 = w_trace w @ map (\<lambda>(k, a). BrokerGet k) ?ins"
    and b1: "w_broker w1 = w_broker w"
    using retrieve_loop_ok[OF rl] sel by simp_all
  have f1: "\<forall>a. a \<notin> snd ` set ?ins \<longrightarrow> w_heap w1 a = w_heap w a"
    using retrieve_loop_frame[OF rl] mo sel by blast
  have e1: "distinct (map snd ?ins) \<longrightarrow>
          (\<forall>(k, a)\<in>set ?ins.
             \<exists>obj obj'. w_heap w a = Some obj
               \<and> fromJSON js obj (kv (w_broker w) k) = Inr obj' \<and> w_heap w1 a = Some obj')"
    using retrieve_loop_effect[OF rl] mo sel by blast
  obtain outs where so: "select_fields (w_heap ?w2) (output_cond False) (p_dict self) = Inr outs"
    and pl: "publish_loop js outs ?w2 = (w', None)"
    using p by (auto simp add: Process_publish_fields_def split: sum.splits)
  have h2: "w_heap ?w2 = fst (others (w_heap w1, w_broker w1))"
    and b2: "w_broker ?w2 = snd (others (w_heap w1, w_broker w1))"
    and t2: "w_trace ?w2 = w_trace w1 @ [Yield 1]"
    by (simp_all add: suspend_def split: prod.splits)
  from publish_loop_ok[OF pl]
  obtain sets where hp: "w_heap w' = w_heap ?w2"
    and tp: "w_trace w' = w_trace ?w2 @ sets"
    and lp: "list_all2 (\<lambda>ev (k, a). \<exists>obj s. w_heap ?w2 a = Some obj \<and> toJSON js obj = Inr s
                      \<and> ev = BrokerSet k s) sets outs"
    and kp: "\<forall>k. k \<notin> fst ` set outs \<longrightarrow> kv (w_broker w') k = kv (w_broker ?w2) k"
    by blast
  have outs: "outs = direction_fields is_Output (w_heap w') (p_dict self)"
    using select_output[OF so] hp by simp
  show ?thesis
    apply (rule exI[of _ w1], rule exI[of _ sets])
    using r t1 b1 f1 e1 tp t2 lp kp hp h2 b2 outs
    by simp
qed

theorem tick_pulls_inputs_suspends_pushes_outputs_witness:
  "snd (Process_process_body json_literals example_process (\<lambda>x. x)
          (example_world [''IN'' \<mapsto> ''true''] True)) = None
   \<and> w_trace (fst (Process_process_body json_literals example_process (\<lambda>x. x)
          (example_world [''IN'' \<mapsto> ''true''] True))) =
       [BrokerGet ''IN'', Yield 1, BrokerSet ''OUT'' ''true'']"
proof -
  let ?r = "Process_process_body json_literals example_process (\<lambda>x. x)
          (example_world [''IN'' \<mapsto> ''true''] True)"
  have d: "distinct (map fst (p_dict example_process))"
    by (simp add: example_process_def)
  have e: "?r = (fst ?r, None)"
    by (simp add: prod_eq_iff eval_defs)
  from tick_pulls_inputs_suspends_pushes_outputs[OF d e] show ?thesis
    by (simp add: eval_defs)
qed

text \<open>
  The claim C3 as stated fails: when the store has no entry for the input, the pass
  ends in the pull phase with the decoder's TypeError; the process does not suspend and
  the output is not written.
\<close>

theorem store_miss_skips_suspension_and_push:
  "snd (Process_process_body json_literals example_process (\<lambda>x. x)
          (example_world Map.empty True)) = Some TypeError
   \<and> w_trace (fst (Process_process_body json_literals example_process (\<lambda>x. x)
          (example_world Map.empty True))) = [BrokerGet ''IN'']"
  by (simp add: eval_defs)

subsection \<open>The initial push\<close>

lemmas init_defs =
  Process_init_def Process_init_all_fields_def init_field_def construct_def
  Field_def Field_init_def new_object_def get_or_None_def FieldType_getattr_def
  FieldType_members_def example_variables_def internal_variable_def empty_world_def

text \<open>
  With a type on every field the forced push writes all of them, the one without
  direction included: the configuration of the small plant yields its three fields and
  a store holding the three values.
\<close>

lemma Process_init_example:
  "Process_init json_literals example_variables empty_world
   = ((\<lparr>p_dict = [(''_broker'', Other), (''_factor'', Other), (''IN'', Ref 0), (''OUT'', Ref 1),
                (''AUX'', Ref 2)]\<rparr>,
       \<lparr>w_heap = example_fields, w_next = 3,
        w_broker = \<lparr>kv = [''IN'' \<mapsto> ''false'', ''OUT'' \<mapsto> ''true'', ''AUX'' \<mapsto> ''false''],
                    online = True\<rparr>,
        w_trace = [BrokerSet ''IN'' ''false'', BrokerSet ''OUT'' ''true'',
                   BrokerSet ''AUX'' ''false'']\<rparr>), None)"
  by (simp add: init_defs numeral_2_eq_2 numeral_3_eq_3 eval_defs)

text \<open>
  C8.  The code at a configuration with one variable that names no \<open>ioType\<close>: the field
  is built with \<open>ioType\<close> None, and the forced push raises AttributeError while it
  selects the fields, because \<open>val.ioType.value\<close> is evaluated before \<open>or force_all\<close>.
  Nothing is written to the store, whatever the codec.
\<close>

theorem forced_push_raises_without_ioType:
  "snd (Process_init js internal_variable empty_world) = Some AttributeError
   \<and> w_trace (snd (fst (Process_init js internal_variable empty_world))) = []
   \<and> kv (w_broker (snd (fst (Process_init js internal_variable empty_world)))) = Map.empty"
  by (simp add: init_defs eval_defs)

section \<open>Properties of the scheduling\<close>

subsection \<open>One tick\<close>

lemma sweep_state_simps [simp]:
  "sweep_state t [] s = s"
  "sweep_state t ((c, wake) # ps) s = sweep_state t ps (if wake = t then update c s else s)"
  by (simp_all add: sweep_state_def)

lemma sweep_state_append:
  "sweep_state t (ps @ qs) s = sweep_state t qs (sweep_state t ps s)"
  by (simp add: sweep_state_def)

lemma sweep_eq:
  "sweep t i ps s =
     (map (\<lambda>(c, wake). (c, if wake = t then t + UPDATE_TICK c else wake)) ps,
      sweep_state t ps s, sweep_seen t i ps s)"
  by (induction ps arbitrary: i s) auto

lemma sweep_seen_at:
  "k < length ps \<Longrightarrow> snd (ps ! k) = t \<Longrightarrow>
   map_of (sweep_seen t i ps s) (i + k)
     = Some (sweep_state t (take k ps) s, update (fst (ps ! k)) (sweep_state t (take k ps) s))"
proof (induction ps arbitrary: i s k)
  case Nil
  then show ?case by simp
next
  case (Cons p ps)
  obtain c wake where p: "p = (c, wake)" by (cases p)
  show ?case
  proof (cases k)
    case 0
    with Cons.prems p show ?thesis by auto
  next
    case (Suc k')
    with Cons.prems have k': "k' < length ps" "snd (ps ! k') = t" by simp_all
    have ne: "map_of (sweep_seen t (Suc i) ps s') (Suc (i + k'))
        = Some (sweep_state t (take k' ps) s', update (fst (ps ! k')) (sweep_state t (take k' ps) s'))"
      for s'
      using Cons.IH[OF k', of "Suc i" s'] by simp
    show ?thesis unfolding p Suc using ne by auto
  qed
qed

lemma sweep_state_preserves:
  "\<forall>(c, wake)\<in>set ps. \<forall>s. F (update c s) = F s \<Longrightarrow> F (sweep_state t ps s) = F s"
  by (induction ps arbitrary: s) auto


lemma tick_eq:
  "tick env =
     (\<lparr>now = Suc (now env),
       processes = map (\<lambda>(c, wake). (c, if wake = now env then now env + UPDATE_TICK c else wake))
                     (processes env),
       shared = sweep_state (now env) (processes env) (shared env)\<rparr>,
      sweep_seen (now env) 0 (processes env) (shared env))"
  by (simp add: tick_def sweep_eq)

lemma run_Suc_end:
  "run (Suc n) env = (fst (tick (fst (run n env))), snd (run n env) @ [snd (tick (fst (run n env)))])"
  by (simp add: case_prod_beta)

lemma run_length: "length (snd (run T env)) = T"
  by (induction T) (simp_all add: case_prod_beta)

lemma run_nth: "t < T \<Longrightarrow> snd (run T env) ! t = snd (tick (fst (run t env)))"
proof (induction T)
  case 0
  then show ?case by simp
next
  case (Suc T)
  show ?case
  proof (cases "t = T")
    case True
    then show ?thesis by (simp add: case_prod_beta run_length nth_append)
  next
    case False
    with Suc have "t < T" by simp
    with Suc.IH show ?thesis by (simp add: case_prod_beta run_length nth_append)
  qed
qed

subsection \<open>Processes of period one stay due at every tick\<close>

lemma in_step_tick:
  assumes "in_step cs K env" and "\<forall>k\<in>K. UPDATE_TICK (cs ! k) = 1"
  shows "in_step cs K (fst (tick env))"
proof -
  have m: "map fst (processes env) = cs" using assms(1) by (simp add: in_step_def)
  have l: "length (processes env) = length cs" using m by (metis length_map)
  have "map fst (processes (fst (tick env))) = cs"
    using m by (simp add: tick_eq comp_def case_prod_unfold)
  moreover have "k < length cs \<and> snd (processes (fst (tick env)) ! k) = now (fst (tick env))"
    if "k \<in> K" for k
  proof -
    have k: "k < length cs" "snd (processes env ! k) = now env"
      using assms(1) that by (auto simp add: in_step_def)
    have "fst (processes env ! k) = cs ! k" using m k(1) l by (metis nth_map)
    then show ?thesis using k l assms(2) that
      by (simp add: tick_eq case_prod_unfold)
  qed
  ultimately show ?thesis by (simp add: in_step_def)
qed

lemma in_step_run:
  assumes "in_step cs K env" and "\<forall>k\<in>K. UPDATE_TICK (cs ! k) = 1"
  shows "in_step cs K (fst (run t env))"
proof (induction t)
  case 0
  then show ?case using assms(1) by simp
next
  case (Suc t)
  then show ?case using in_step_tick[OF _ assms(2)] by (simp add: case_prod_beta)
qed

lemma now_run: "now (fst (run t env)) = now env + t"
  by (induction t) (simp_all add: case_prod_beta tick_eq)

lemma resumed_run:
  assumes "in_step cs K env" and "\<forall>k\<in>K. UPDATE_TICK (cs ! k) = 1" and "t < T" and "k \<in> K"
  shows "resumed (snd (run T env)) t k
           = Some (before k (fst (run t env)), update (cs ! k) (before k (fst (run t env))))"
proof -
  let ?e = "fst (run t env)"
  have s: "in_step cs K ?e" using in_step_run[OF assms(1,2)] .
  have m: "map fst (processes ?e) = cs" using s by (simp add: in_step_def)
  have l: "length (processes ?e) = length cs" using m by (metis length_map)
  have k: "k < length cs" "snd (processes ?e ! k) = now ?e"
    using s assms(4) by (auto simp add: in_step_def)
  have f: "fst (processes ?e ! k) = cs ! k" using m k(1) l by (metis nth_map)
  have "resumed (snd (run T env)) t k = map_of (sweep_seen (now ?e) 0 (processes ?e) (shared ?e)) (0 + k)"
    using assms(3) by (simp add: resumed_def run_length run_nth tick_eq)
  also have "\<dots> = Some (before k ?e, update (cs ! k) (before k ?e))"
    using sweep_seen_at[of k "processes ?e" "now ?e" 0 "shared ?e"] k l f
    by (simp add: before_def)
  finally show ?thesis .
qed

lemma segment_preserves:
  assumes m: "map fst ps = cs"
    and p: "\<forall>k<length cs. k \<noteq> i \<longrightarrow> (\<forall>s. F (update (cs ! k) s) = F s)"
    and r: "\<forall>k. a \<le> k \<and> k < b \<longrightarrow> k \<noteq> i"
  shows "F (sweep_state t (drop a (take b ps)) s) = F s"
proof (rule sweep_state_preserves, clarify)
  fix c wake s'
  assume "(c, wake) \<in> set (drop a (take b ps))"
  then obtain n where n: "n < length (drop a (take b ps))" "drop a (take b ps) ! n = (c, wake)"
    by (auto simp add: in_set_conv_nth)
  have l: "length ps = length cs" using m by (metis length_map)
  have an: "a + n < b" "a + n < length ps" using n(1) by auto
  have "ps ! (a + n) = (c, wake)" using n an by simp
  then have "cs ! (a + n) = c" using m an(2) by (metis fst_conv nth_map)
  moreover have "a + n \<noteq> i" using r an(1) by auto
  ultimately show "F (update c s') = F s'" using p an(2) l by auto
qed

lemma before_later:
  assumes s: "in_step cs {i, j} env" and ij: "i < j"
    and p: "\<forall>k<length cs. k \<noteq> i \<longrightarrow> (\<forall>s. F (update (cs ! k) s) = F s)"
  shows "F (before j env) = F (update (cs ! i) (before i env))"
proof -
  let ?ps = "processes env"
  have m: "map fst ?ps = cs" using s by (simp add: in_step_def)
  have l: "length ?ps = length cs" using m by (metis length_map)
  have i: "i < length cs" "snd (?ps ! i) = now env" and j: "j < length cs"
    using s by (auto simp add: in_step_def)
  have f: "fst (?ps ! i) = cs ! i" using m i(1) l by (metis nth_map)
  have "i < length (take j ?ps)" using ij j l by simp
  from id_take_nth_drop[OF this]
  have "take j ?ps = take i ?ps @ (?ps ! i) # drop (Suc i) (take j ?ps)"
    using ij by (simp add: min_def)
  then have "sweep_state (now env) (take j ?ps) (shared env)
      = sweep_state (now env) (take i ?ps @ [?ps ! i] @ drop (Suc i) (take j ?ps)) (shared env)"
    by simp
  then have "before j env
      = sweep_state (now env) (drop (Suc i) (take j ?ps))
          (sweep_state (now env) [?ps ! i] (before i env))"
    by (simp only: before_def sweep_state_append)
  also have "sweep_state (now env) [?ps ! i] (before i env) = update (cs ! i) (before i env)"
    using i(2) f by (cases "?ps ! i") auto
  finally show ?thesis
    using segment_preserves[OF m p, of "Suc i" j] by simp
qed

lemma before_earlier:
  assumes s: "in_step cs {i, j} env" and ji: "j < i"
    and p: "\<forall>k<length cs. k \<noteq> i \<longrightarrow> (\<forall>s. F (update (cs ! k) s) = F s)"
  shows "F (before j env) = F (shared env)"
    and "F (shared (fst (tick env))) = F (update (cs ! i) (before i env))"
proof -
  let ?ps = "processes env"
  have m: "map fst ?ps = cs" using s by (simp add: in_step_def)
  have l: "length ?ps = length cs" using m by (metis length_map)
  have i: "i < length cs" "snd (?ps ! i) = now env"
    using s by (auto simp add: in_step_def)
  have f: "fst (?ps ! i) = cs ! i" using m i(1) l by (metis nth_map)
  have "F (sweep_state (now env) (drop 0 (take j ?ps)) (shared env)) = F (shared env)"
    using segment_preserves[OF m p, of 0 j] ji by simp
  then show "F (before j env) = F (shared env)" by (simp add: before_def)
  have "?ps = take i ?ps @ [?ps ! i] @ drop (Suc i) ?ps"
    using i(1) l by (simp add: id_take_nth_drop[symmetric])
  then have "sweep_state (now env) ?ps (shared env)
      = sweep_state (now env) (take i ?ps @ [?ps ! i] @ drop (Suc i) ?ps) (shared env)"
    by simp
  then have "sweep_state (now env) ?ps (shared env)
      = sweep_state (now env) (drop (Suc i) ?ps)
          (sweep_state (now env) [?ps ! i] (before i env))"
    by (simp only: before_def sweep_state_append)
  also have "sweep_state (now env) [?ps ! i] (before i env) = update (cs ! i) (before i env)"
    using i(2) f by (cases "?ps ! i") auto
  finally have "F (sweep_state (now env) ?ps (shared env)) = F (update (cs ! i) (before i env))"
    using segment_preserves[OF m p, of "Suc i" "length ?ps"] by simp
  then show "F (shared (fst (tick env))) = F (update (cs ! i) (before i env))"
    by (simp add: tick_eq)
qed


lemma register_all_eq:
  "register_all env specs =
     env\<lparr>processes := processes env @ map (\<lambda>c. (c, now env)) (components specs)\<rparr>"
  unfolding register_all_def components_def
  by (induction specs arbitrary: env)
     (simp_all add: Component_init_def env_process_def case_prod_beta)

lemma in_step_register:
  "\<forall>k\<in>K. k < length specs \<Longrightarrow>
     in_step (components specs) K (register_all (Environment_init s0) specs)"
  by (simp add: in_step_def register_all_eq Environment_init_def comp_def components_def)

lemma components_nth:
  "k < length specs \<Longrightarrow>
     update (components specs ! k) = fst (specs ! k)
     \<and> UPDATE_TICK (components specs ! k) = snd (specs ! k)"
  by (simp add: components_def case_prod_beta)

lemma tick_ordering_from:
  fixes F :: "'s \<Rightarrow> 'v"
  assumes s0: "in_step cs {i, j} E"
    and px: "UPDATE_TICK (cs ! i) = 1" and py: "UPDATE_TICK (cs ! j) = 1"
    and p: "\<forall>k<length cs. k \<noteq> i \<longrightarrow> (\<forall>s. F (update (cs ! k) s) = F s)"
    and t: "t < T"
  shows "\<exists>sx sy.
      resumed (snd (run T E)) t i = Some (sx, update (cs ! i) sx)
    \<and> resumed (snd (run T E)) t j = Some (sy, update (cs ! j) sy)
    \<and> (i < j \<longrightarrow> F sy = F (update (cs ! i) sx))
    \<and> (j < i \<longrightarrow> t = 0 \<longrightarrow> F sy = F (shared E))
    \<and> (j < i \<longrightarrow> (\<forall>t'. t = Suc t' \<longrightarrow>
          (\<exists>sx'. resumed (snd (run T E)) t' i = Some (sx', update (cs ! i) sx')
                 \<and> F sy = F (update (cs ! i) sx'))))"
proof -
  let ?L = "snd (run T E)"
  have u: "\<forall>k\<in>{i, j}. UPDATE_TICK (cs ! k) = 1" using px py by simp
  have st: "in_step cs {i, j} (fst (run n E))" for n using in_step_run[OF s0 u] .
  have ri: "resumed ?L n i = Some (before i (fst (run n E)), update (cs ! i) (before i (fst (run n E))))"
    if "n < T" for n using resumed_run[OF s0 u that, of i] by simp
  have rj: "resumed ?L t j = Some (before j (fst (run t E)), update (cs ! j) (before j (fst (run t E))))"
    using resumed_run[OF s0 u t, of j] by simp
  have a: "i < j \<longrightarrow> F (before j (fst (run t E))) = F (update (cs ! i) (before i (fst (run t E))))"
    using before_later[OF st _ p] by blast
  have b: "j < i \<longrightarrow> t = 0 \<longrightarrow> F (before j (fst (run t E))) = F (shared E)"
    using before_earlier(1)[OF st _ p, of 0] by auto
  have c: "j < i \<longrightarrow> (\<forall>t'. t = Suc t' \<longrightarrow>
          (\<exists>sx'. resumed ?L t' i = Some (sx', update (cs ! i) sx')
                 \<and> F (before j (fst (run t E))) = F (update (cs ! i) sx')))"
  proof (intro impI allI)
    fix t' assume ji: "j < i" and tt: "t = Suc t'"
    have t': "t' < T" using t tt by simp
    have "F (before j (fst (run t E))) = F (shared (fst (run t E)))"
      using before_earlier(1)[OF st ji p] .
    also have "\<dots> = F (shared (fst (tick (fst (run t' E)))))"
      unfolding tt by (simp add: case_prod_beta)
    also have "\<dots> = F (update (cs ! i) (before i (fst (run t' E))))"
      using before_earlier(2)[OF st ji p] .
    finally show "\<exists>sx'. resumed ?L t' i = Some (sx', update (cs ! i) sx')
                 \<and> F (before j (fst (run t E))) = F (update (cs ! i) sx')"
      using ri[OF t'] by blast
  qed
  show ?thesis
    using ri[OF t] rj a b c by blast
qed

subsection \<open>The order of evaluation\<close>

lemma resumed_any_length:
  "t < T \<Longrightarrow> t < T' \<Longrightarrow> resumed (snd (run T env)) t k = resumed (snd (run T' env)) t k"
  by (simp add: resumed_def run_length run_nth)

text \<open>
  C1, settled against the scheduler modelled from the specification.  Let the
  components be built in the order of \<open>specs\<close>, let the writer X be the one at index
  \<open>i\<close> and the reader Y the one at index \<open>j\<close>, both with the update period 1 that every
  component of the scenario has, and let \<open>F\<close> be a part of the shared state that no
  process but X changes.  Then in every tick \<open>t\<close> both run once, X from a state \<open>sx\<close>
  and Y from a state \<open>sy\<close>, and: if X was registered before Y, the \<open>F\<close> that Y finds
  is the one X left in this same tick; if X was registered after Y, Y finds in the
  first tick the initial \<open>F\<close> and in every later tick the \<open>F\<close> that X left in the
  tick before.  What is observed is determined by the order of registration and the
  initial state: what a process finds and leaves in tick \<open>t\<close> is the same however long
  the simulation goes on after it, and two simulations with the same registrations in
  the same order and the same initial state record the same.
\<close>

theorem registration_order_decides_what_is_observed:
  fixes F :: "'s \<Rightarrow> 'v"
  assumes "i < length specs" and "j < length specs"
    and "snd (specs ! i) = 1" and "snd (specs ! j) = 1"
    and "\<forall>k<length specs. k \<noteq> i \<longrightarrow> (\<forall>s. F (fst (specs ! k) s) = F s)"
    and "t < T"
  shows "(\<exists>sx sy.
      resumed (snd (run T (register_all (Environment_init s0) specs))) t i
        = Some (sx, fst (specs ! i) sx)
    \<and> resumed (snd (run T (register_all (Environment_init s0) specs))) t j
        = Some (sy, fst (specs ! j) sy)
    \<and> (i < j \<longrightarrow> F sy = F (fst (specs ! i) sx))
    \<and> (j < i \<longrightarrow> t = 0 \<longrightarrow> F sy = F s0)
    \<and> (j < i \<longrightarrow> (\<forall>t'. t = Suc t' \<longrightarrow>
          (\<exists>sx'. resumed (snd (run T (register_all (Environment_init s0) specs))) t' i
                   = Some (sx', fst (specs ! i) sx')
                 \<and> F sy = F (fst (specs ! i) sx')))))
    \<and> (\<forall>T' k. t < T' \<longrightarrow>
          resumed (snd (run T (register_all (Environment_init s0) specs))) t k
            = resumed (snd (run T' (register_all (Environment_init s0) specs))) t k)
    \<and> (\<forall>specs' s0'. specs' = specs \<and> s0' = s0 \<longrightarrow>
          snd (run T (register_all (Environment_init s0') specs'))
            = snd (run T (register_all (Environment_init s0) specs)))"
proof (intro conjI)
  let ?cs = "components specs"
  let ?E = "register_all (Environment_init s0) specs"
  have l: "length ?cs = length specs" by (simp add: components_def)
  have s: "in_step ?cs {i, j} ?E" using assms(1,2) by (simp add: in_step_register)
  have ui: "update (?cs ! i) = fst (specs ! i)" and uj: "update (?cs ! j) = fst (specs ! j)"
    and px: "UPDATE_TICK (?cs ! i) = 1" and py: "UPDATE_TICK (?cs ! j) = 1"
    using assms(1-4) by (simp_all add: components_nth)
  have p: "\<forall>k<length ?cs. k \<noteq> i \<longrightarrow> (\<forall>s. F (update (?cs ! k) s) = F s)"
    using assms(5) l by (simp add: components_nth)
  have sh: "shared ?E = s0" by (simp add: register_all_eq Environment_init_def)
  from tick_ordering_from[OF s px py p assms(6)]
  show "\<exists>sx sy.
      resumed (snd (run T ?E)) t i = Some (sx, fst (specs ! i) sx)
    \<and> resumed (snd (run T ?E)) t j = Some (sy, fst (specs ! j) sy)
    \<and> (i < j \<longrightarrow> F sy = F (fst (specs ! i) sx))
    \<and> (j < i \<longrightarrow> t = 0 \<longrightarrow> F sy = F s0)
    \<and> (j < i \<longrightarrow> (\<forall>t'. t = Suc t' \<longrightarrow>
          (\<exists>sx'. resumed (snd (run T ?E)) t' i = Some (sx', fst (specs ! i) sx')
                 \<and> F sy = F (fst (specs ! i) sx'))))"
    unfolding ui uj sh .
  show "\<forall>T' k. t < T' \<longrightarrow> resumed (snd (run T ?E)) t k = resumed (snd (run T' ?E)) t k"
    using assms(6) by (blast intro: resumed_any_length)
  show "\<forall>specs' s0'. specs' = specs \<and> s0' = s0 \<longrightarrow>
          snd (run T (register_all (Environment_init s0') specs')) = snd (run T ?E)"
    by simp
qed

theorem registration_order_decides_what_is_observed_witness:
  "resumed (snd (run 2 (register_all (Environment_init (0, 0)) [(writer, 1), (reader, 1)]))) 1 1
     = Some ((2, 1), (2, 2))
   \<and> resumed (snd (run 2 (register_all (Environment_init (0, 0)) [(reader, 1), (writer, 1)]))) 1 0
     = Some ((1, 0), (1, 1))"
  using registration_order_decides_what_is_observed
    [where specs = "[(writer, 1), (reader, 1)]" and i = 0 and j = 1 and F = fst
       and t = 1 and T = 2 and ?s0.0 = "(0, 0)", THEN conjunct1]
    registration_order_decides_what_is_observed
    [where specs = "[(reader, 1), (writer, 1)]" and i = 1 and j = 0 and F = fst
       and t = 1 and T = 2 and ?s0.0 = "(0, 0)", THEN conjunct1]
  by (simp add: numeral_2_eq_2 register_all_def Component_init_def env_process_def
      Environment_init_def tick_def resumed_def writer_def reader_def)

text \<open>
  The claim C1 as stated, for every pair of components, fails in two ways.  With a
  third component registered between X and Y that also writes \<open>F\<close>, Y finds in the
  first tick the 0 this component left and not the 1 that X wrote in the same tick.
  With an update period of 2 for X, X is not resumed in the second tick at all, and Y,
  registered after X, finds there what X wrote one tick earlier.
\<close>

theorem another_writer_or_period_breaks_the_ordering:
  "resumed (snd (run 1 (register_all (Environment_init (0, 0))
       [(writer, 1), (eraser, 1), (reader, 1)]))) 0 0 = Some ((0, 0), (1, 0))
   \<and> resumed (snd (run 1 (register_all (Environment_init (0, 0))
       [(writer, 1), (eraser, 1), (reader, 1)]))) 0 2 = Some ((0, 0), (0, 0))
   \<and> resumed (snd (run 2 (register_all (Environment_init (0, 0))
       [(writer, 2), (reader, 1)]))) 0 0 = Some ((0, 0), (1, 0))
   \<and> resumed (snd (run 2 (register_all (Environment_init (0, 0))
       [(writer, 2), (reader, 1)]))) 1 0 = None
   \<and> resumed (snd (run 2 (register_all (Environment_init (0, 0))
       [(writer, 2), (reader, 1)]))) 1 1 = Some ((1, 1), (1, 1))"
  by (simp add: numeral_2_eq_2 register_all_def Component_init_def env_process_def
      Environment_init_def tick_def resumed_def writer_def reader_def eraser_def)

end
